theory Spec2Isabelle
  imports Main
begin

section \<open>Data model\<close>

text \<open>
  The engine keeps five MongoDB collections: users, projects, comments, likes and follows.
  A collection is modelled as the list of its documents in insertion order; every document
  carries its own \<open>_id\<close>. Identifiers (\<open>ObjectId\<close>) are natural numbers.

  A request parameter that is meant to hold an identifier arrives as a string and is an
  \<open>oid_param\<close>: \<open>Malformed\<close> when \<open>mongoose.Types.ObjectId.isValid\<close> answers false,
  and otherwise \<open>Oid i canonical\<close>, where \<open>i\<close> is the identifier the string is cast
  to and \<open>canonical\<close> tells whether the string is the spelling that \<open>i.toString()\<close>
  prints (24 lower-case hexadecimal digits). \<open>isValid\<close> and the cast accept other
  spellings of the same identifier too, upper-case digits for one. Queries and
  \<open>new ObjectId(\<dots>)\<close> cast the string and see the identifier only. Where a route
  compares the string itself (\<open>a.toString() === param\<close>) the comparison holds for the
  canonical spelling of \<open>a\<close> and for no other string: this is \<open>toString_eq\<close>.
  Identifiers read from two documents are compared through their printed form, which is
  equality of identifiers.

  Strings are lists of Latin-1 code units, so \<open>length\<close> is the \<open>.length\<close> of the source.
  The session carries the e-mail address in the lower-case spelling of the stored one.
  Counters are \<open>int\<close>: \<open>$inc\<close> with \<open>-1\<close> may take a stored counter below zero.
  Time is a natural number handed to each handler (\<open>new Date()\<close>). The comment schema
  has \<open>timestamps: true\<close>, so every update of a comment document, the \<open>$inc\<close> of a
  counter too, sets its \<open>updatedAt\<close> to the time of the call. The timestamps of users
  and of Like and Follow rows are not part of the model.
\<close>

type_synonym oid = nat

datatype oid_param = Malformed | Oid oid bool

definition toString_eq :: "oid \<Rightarrow> oid_param \<Rightarrow> bool" where
  "toString_eq a param =
     (case param of
        Malformed \<Rightarrow> False
      | Oid i canonical \<Rightarrow> canonical \<and> a = i)"

datatype UserRole = RoleUser | RoleAdmin | RoleModerator

record User =
  user_id :: oid
  user_email :: string
  user_role :: UserRole
  stats_followers :: int
  stats_following :: int

record Project =
  project_id :: oid
  project_authorId :: oid
  project_stats_likes :: int

datatype LikeableType = TargetProject | TargetComment

record Like =
  like_id :: oid
  like_userId :: oid
  like_targetId :: oid
  like_targetType :: LikeableType

record Follow =
  follow_id :: oid
  followerId :: oid
  followingId :: oid

record CommentStats =
  likes :: int
  replies :: int
  reportCount :: int

record CommentMetadata =
  isEdited :: bool
  isPinned :: bool
  isHidden :: bool
  depth :: nat

record Comment =
  comment_id :: oid
  content :: string
  authorId :: oid
  projectId :: oid
  parentCommentId :: "oid option"
  stats :: CommentStats
  metadata :: CommentMetadata
  isActive :: bool
  createdAt :: nat
  updatedAt :: nat

record Database =
  Users :: "User list"
  Projects :: "Project list"
  Comments :: "Comment list"
  Likes :: "Like list"
  Follows :: "Follow list"
  next_oid :: oid

text \<open>
  The failures of the handlers, one constructor for each early return of the source.
  In the words of the specification: \<open>SelfFollow\<close> is \<open>InvalidTarget\<close>,
  \<open>ContentRequired\<close> and \<open>ContentTooLong\<close> are \<open>ValidationFailed\<close>,
  \<open>NotOwner\<close> is \<open>Forbidden\<close>.
\<close>

datatype error =
    Unauthorized
  | InvalidId
  | UserNotFound
  | ProjectNotFound
  | CommentNotFound
  | TargetUserNotFound
  | SelfFollow
  | ContentRequired
  | ContentTooLong
  | InvalidParentId
  | ParentNotFound
  | ParentWrongProject
  | DepthExceeded
  | NotOwner
  | InternalError

section \<open>Collection primitives\<close>

text \<open>
  \<open>findOne\<close> and \<open>findById\<close> are \<^const>\<open>find\<close>: the first document that matches.
  \<open>updateOne\<close> (behind \<open>findByIdAndUpdate\<close>) rewrites the first match only,
  \<open>updateMany\<close> every match, \<open>deleteOne\<close> removes the first match and
  \<open>countDocuments\<close> counts the matches.
\<close>

fun updateOne :: "('a \<Rightarrow> bool) \<Rightarrow> ('a \<Rightarrow> 'a) \<Rightarrow> 'a list \<Rightarrow> 'a list" where
  "updateOne P f [] = []"
| "updateOne P f (x # xs) = (if P x then f x # xs else x # updateOne P f xs)"

definition updateMany :: "('a \<Rightarrow> bool) \<Rightarrow> ('a \<Rightarrow> 'a) \<Rightarrow> 'a list \<Rightarrow> 'a list" where
  "updateMany P f xs = map (\<lambda>x. if P x then f x else x) xs"

fun deleteOne :: "('a \<Rightarrow> bool) \<Rightarrow> 'a list \<Rightarrow> 'a list" where
  "deleteOne P [] = []"
| "deleteOne P (x # xs) = (if P x then xs else x # deleteOne P xs)"

definition countDocuments :: "('a \<Rightarrow> bool) \<Rightarrow> 'a list \<Rightarrow> nat" where
  "countDocuments P xs = length (filter P xs)"

section \<open>Comment model helpers\<close>

definition MAX_COMMENT_LENGTH :: nat where
  "MAX_COMMENT_LENGTH = 2000"

definition MIN_COMMENT_LENGTH :: nat where
  "MIN_COMMENT_LENGTH = 1"

definition MAX_THREAD_DEPTH :: nat where
  "MAX_THREAD_DEPTH = 5"

text \<open>
  \<open>String.prototype.trim\<close> removes white space and line terminators from both ends; among
  the Latin-1 code units these are 9 to 13, 32 and 160.
\<close>

definition is_space :: "char \<Rightarrow> bool" where
  "is_space c = (c \<in> set [CHR 0x09, CHR 0x0A, CHR 0x0B, CHR 0x0C, CHR 0x0D, CHR 0x20, CHR 0xA0])"

definition trim :: "string \<Rightarrow> string" where
  "trim s = rev (dropWhile is_space (rev (dropWhile is_space s)))"

definition validateCommentContent :: "string \<Rightarrow> bool" where
  "validateCommentContent c =
     (let trimmedContent = trim c
      in length trimmedContent \<ge> MIN_COMMENT_LENGTH \<and> length trimmedContent \<le> MAX_COMMENT_LENGTH)"

definition validateThreadDepth :: "nat \<Rightarrow> bool" where
  "validateThreadDepth d = (d \<le> MAX_THREAD_DEPTH)"

definition calculateCommentDepth :: "Comment option \<Rightarrow> nat" where
  "calculateCommentDepth parentComment =
     (case parentComment of
        None \<Rightarrow> 0
      | Some p \<Rightarrow> min (depth (metadata p) + 1) MAX_THREAD_DEPTH)"

definition canReplyToComment :: "Comment \<Rightarrow> bool" where
  "canReplyToComment c =
     (depth (metadata c) < MAX_THREAD_DEPTH \<and> isActive c \<and> \<not> isHidden (metadata c))"

definition tombstone :: string where
  "tombstone = ''[Comment deleted]''"

section \<open>Comment handlers\<close>

text \<open>
  Every handler takes the session (the e-mail address of the signed-in user, if any), the
  path parameters, the request body, the time of the call and the database, and returns
  its answer with the database it leaves behind. All early returns come before the first
  write, so a failure returns the database it was given.
\<close>

definition softDeleted :: "nat \<Rightarrow> Comment \<Rightarrow> Comment" where
  "softDeleted now c = c\<lparr>isActive := False, content := tombstone, updatedAt := now\<rparr>"

definition inc_replies :: "int \<Rightarrow> nat \<Rightarrow> Comment \<Rightarrow> Comment" where
  "inc_replies k now c =
     c\<lparr>stats := (stats c)\<lparr>replies := replies (stats c) + k\<rparr>, updatedAt := now\<rparr>"

definition inc_likes :: "int \<Rightarrow> nat \<Rightarrow> Comment \<Rightarrow> Comment" where
  "inc_likes k now c =
     c\<lparr>stats := (stats c)\<lparr>likes := likes (stats c) + k\<rparr>, updatedAt := now\<rparr>"

definition edited :: "string \<Rightarrow> nat \<Rightarrow> Comment \<Rightarrow> Comment" where
  "edited new_content now c =
     c\<lparr>content := trim new_content,
       metadata := (metadata c)\<lparr>isEdited := True\<rparr>,
       updatedAt := now\<rparr>"

text \<open>\<open>PUT /api/projects/[id]/comments/[commentId]\<close>: edit a comment.\<close>

definition comment_PUT ::
  "string option \<Rightarrow> oid_param \<Rightarrow> string \<Rightarrow> nat \<Rightarrow> Database \<Rightarrow> (error + Comment) \<times> Database" where
  "comment_PUT session commentId body_content now db =
     (case session of
        None \<Rightarrow> (Inl Unauthorized, db)
      | Some email \<Rightarrow>
     (case commentId of
        Malformed \<Rightarrow> (Inl InvalidId, db)
      | Oid cid canonical \<Rightarrow>
     (case find (\<lambda>u. user_email u = email) (Users db) of
        None \<Rightarrow> (Inl UserNotFound, db)
      | Some user \<Rightarrow>
     (case find (\<lambda>c. comment_id c = cid) (Comments db) of
        None \<Rightarrow> (Inl CommentNotFound, db)
      | Some c \<Rightarrow>
          if authorId c \<noteq> user_id user then (Inl NotOwner, db)
          else if body_content = [] \<or> length (trim body_content) = 0 then (Inl ContentRequired, db)
          else if length body_content > 2000 then (Inl ContentTooLong, db)
          else
            let db' = db\<lparr>Comments :=
                        updateOne (\<lambda>c. comment_id c = cid) (edited body_content now) (Comments db)\<rparr>
            in (case find (\<lambda>c. comment_id c = cid) (Comments db') of
                  None \<Rightarrow> (Inl CommentNotFound, db')
                | Some updatedComment \<Rightarrow> (Inr updatedComment, db'))))))"

text \<open>
  \<open>DELETE /api/projects/[id]/comments/[commentId]\<close>: soft-delete a comment. The three
  writes of the handler, in the order of the source, are \<open>delete_writes\<close>: the comment
  itself, the reply counter of its parent, and the documents whose \<open>parentCommentId\<close> is
  the deleted comment.
\<close>

definition delete_writes :: "oid \<Rightarrow> nat \<Rightarrow> Comment \<Rightarrow> Comment list \<Rightarrow> Comment list" where
  "delete_writes cid now c cs =
     (let cs1 = updateOne (\<lambda>c. comment_id c = cid) (softDeleted now) cs;
          cs2 = (case parentCommentId c of
                   None \<Rightarrow> cs1
                 | Some p \<Rightarrow> updateOne (\<lambda>c. comment_id c = p) (inc_replies (- 1) now) cs1)
      in updateMany (\<lambda>c. parentCommentId c = Some cid) (softDeleted now) cs2)"

definition comment_DELETE ::
  "string option \<Rightarrow> oid_param \<Rightarrow> nat \<Rightarrow> Database \<Rightarrow> (error + unit) \<times> Database" where
  "comment_DELETE session commentId now db =
     (case session of
        None \<Rightarrow> (Inl Unauthorized, db)
      | Some email \<Rightarrow>
     (case commentId of
        Malformed \<Rightarrow> (Inl InvalidId, db)
      | Oid cid canonical \<Rightarrow>
     (case find (\<lambda>u. user_email u = email) (Users db) of
        None \<Rightarrow> (Inl UserNotFound, db)
      | Some user \<Rightarrow>
     (case find (\<lambda>c. comment_id c = cid) (Comments db) of
        None \<Rightarrow> (Inl CommentNotFound, db)
      | Some c \<Rightarrow>
          if authorId c \<noteq> user_id user \<and> user_role user \<noteq> RoleAdmin then (Inl NotOwner, db)
          else (Inr (), db\<lparr>Comments := delete_writes cid now c (Comments db)\<rparr>)))))"

text \<open>
  \<open>POST /api/projects/[id]/comments\<close>: create a comment. The block that validates the
  parent and computes the depth of the new comment is \<open>reply_depth\<close>. The schema
  validation of \<open>save()\<close> (content between 1 and 2000 characters after trimming, depth at
  most 5) cannot fail behind the route's own checks. The answer is the stored document found
  again by the new identifier.
\<close>

definition reply_depth :: "oid_param option \<Rightarrow> oid_param \<Rightarrow> Database \<Rightarrow> error + nat" where
  "reply_depth body_parent id_param db =
     (case body_parent of
        None \<Rightarrow> Inr 0
      | Some Malformed \<Rightarrow> Inl InvalidParentId
      | Some (Oid p spelling) \<Rightarrow>
          (case find (\<lambda>c. comment_id c = p) (Comments db) of
             None \<Rightarrow> Inl ParentNotFound
           | Some parentComment \<Rightarrow>
               if \<not> toString_eq (projectId parentComment) id_param then Inl ParentWrongProject
               else let d = depth (metadata parentComment) + 1
                    in if d > 5 then Inl DepthExceeded else Inr d))"

definition newComment ::
  "oid \<Rightarrow> string \<Rightarrow> oid \<Rightarrow> oid \<Rightarrow> oid option \<Rightarrow> nat \<Rightarrow> nat \<Rightarrow> Comment" where
  "newComment new_id body_content author pid parent d now =
     \<lparr>comment_id = new_id,
      content = trim body_content,
      authorId = author,
      projectId = pid,
      parentCommentId = parent,
      stats = \<lparr>likes = 0, replies = 0, reportCount = 0\<rparr>,
      metadata = \<lparr>isEdited = False, isPinned = False, isHidden = False, depth = d\<rparr>,
      isActive = True,
      createdAt = now,
      updatedAt = now\<rparr>"

definition comments_POST ::
  "string option \<Rightarrow> oid_param \<Rightarrow> string \<Rightarrow> oid_param option \<Rightarrow> nat \<Rightarrow> Database
     \<Rightarrow> (error + Comment option) \<times> Database" where
  "comments_POST session id_param body_content body_parent now db =
     (case session of
        None \<Rightarrow> (Inl Unauthorized, db)
      | Some email \<Rightarrow>
     (case id_param of
        Malformed \<Rightarrow> (Inl InvalidId, db)
      | Oid pid canonical \<Rightarrow>
     (case find (\<lambda>u. user_email u = email) (Users db) of
        None \<Rightarrow> (Inl UserNotFound, db)
      | Some user \<Rightarrow>
     (case find (\<lambda>p. project_id p = pid) (Projects db) of
        None \<Rightarrow> (Inl ProjectNotFound, db)
      | Some proj \<Rightarrow>
          if body_content = [] \<or> length (trim body_content) = 0 then (Inl ContentRequired, db)
          else if length body_content > 2000 then (Inl ContentTooLong, db)
          else
            (case reply_depth body_parent id_param db of
               Inl e \<Rightarrow> (Inl e, db)
             | Inr d \<Rightarrow>
                 let parent = (case body_parent of Some (Oid p spelling) \<Rightarrow> Some p | _ \<Rightarrow> None);
                     c = newComment (next_oid db) body_content (user_id user) pid parent d now;
                     cs1 = Comments db @ [c];
                     cs2 = (case parent of
                              None \<Rightarrow> cs1
                            | Some p \<Rightarrow> updateOne (\<lambda>c. comment_id c = p) (inc_replies 1 now) cs1);
                     db' = db\<lparr>Comments := cs2, next_oid := Suc (next_oid db)\<rparr>
                 in (Inr (find (\<lambda>x. comment_id x = next_oid db) cs2), db'))))))"

text \<open>
  \<open>GET /api/projects/[id]/comments\<close>: the page of top-level comments. The stages of the
  aggregation pipeline are kept in their order: \<open>$match\<close>, \<open>$lookup\<close> of the author with
  \<open>$unwind\<close> (one document for each matching user), \<open>$lookup\<close> of the replies,
  \<open>$addFields\<close>, \<open>$project\<close>, \<open>$sort\<close>, \<open>$skip\<close>, \<open>$limit\<close>. The database refuses a
  negative \<open>$skip\<close> and a \<open>$limit\<close> that is not positive, which the handler answers
  with status 500. \<open>page\<close> and \<open>limit\<close> are the parsed integers.
\<close>

record CommentListItem =
  item_id :: oid
  item_content :: string
  item_createdAt :: nat
  item_updatedAt :: nat
  item_likes :: int
  item_replies :: nat
  item_author :: oid

datatype SortBy = SortLikes | SortCreatedAt | SortUpdatedAt

datatype SortOrder = Asc | Desc

definition sort_value :: "SortBy \<Rightarrow> CommentListItem \<Rightarrow> int" where
  "sort_value sortBy i =
     (case sortBy of
        SortLikes \<Rightarrow> item_likes i
      | SortCreatedAt \<Rightarrow> int (item_createdAt i)
      | SortUpdatedAt \<Rightarrow> int (item_updatedAt i))"

definition list_item :: "Database \<Rightarrow> Comment \<times> User \<Rightarrow> CommentListItem" where
  "list_item db cu =
     (let c = fst cu;
          author = snd cu;
          replies_docs = filter (\<lambda>r. parentCommentId r = Some (comment_id c)) (Comments db);
          repliesCount = length replies_docs
      in \<lparr>item_id = comment_id c,
          item_content = content c,
          item_createdAt = createdAt c,
          item_updatedAt = updatedAt c,
          item_likes = likes (stats c),
          item_replies = repliesCount,
          item_author = user_id author\<rparr>)"

definition comments_GET ::
  "string option \<Rightarrow> oid_param \<Rightarrow> int \<Rightarrow> int \<Rightarrow> SortBy \<Rightarrow> SortOrder \<Rightarrow> Database
     \<Rightarrow> error + CommentListItem list \<times> nat" where
  "comments_GET session id_param page limit sortBy sortOrder db =
     (case session of
        None \<Rightarrow> Inl Unauthorized
      | Some email \<Rightarrow>
     (case id_param of
        Malformed \<Rightarrow> Inl InvalidId
      | Oid pid canonical \<Rightarrow>
     (case find (\<lambda>p. project_id p = pid) (Projects db) of
        None \<Rightarrow> Inl ProjectNotFound
      | Some proj \<Rightarrow>
          let skip = (page - 1) * limit;
              top_level = (\<lambda>c. projectId c = pid \<and> parentCommentId c = None \<and> isActive c);
              matched = filter top_level (Comments db);
              unwound = concat (map (\<lambda>c. map (\<lambda>u. (c, u))
                                   (filter (\<lambda>u. user_id u = authorId c) (Users db))) matched);
              projected = map (list_item db) unwound;
              sorted = sort_key (\<lambda>i. (case sortOrder of Asc \<Rightarrow> 1 | Desc \<Rightarrow> - 1)
                                        * sort_value sortBy i) projected;
              totalComments = countDocuments top_level (Comments db)
          in if skip < 0 \<or> limit \<le> 0 then Inl InternalError
             else Inr (take (nat limit) (drop (nat skip) sorted), totalComments))))"

text \<open>
  \<open>GET /api/projects/[id]/comments/[commentId]\<close>: one active comment with its replies.
  Here the \<open>$lookup\<close> of the replies filters on \<open>isActive\<close> and sorts by creation time.
\<close>

definition comment_GET ::
  "string option \<Rightarrow> oid_param \<Rightarrow> Database \<Rightarrow> error + Comment \<times> Comment list" where
  "comment_GET session commentId db =
     (case session of
        None \<Rightarrow> Inl Unauthorized
      | Some email \<Rightarrow>
     (case commentId of
        Malformed \<Rightarrow> Inl InvalidId
      | Oid cid canonical \<Rightarrow>
          let has_author = (\<lambda>c. filter (\<lambda>u. user_id u = authorId c) (Users db) \<noteq> []);
              matched = filter (\<lambda>c. comment_id c = cid \<and> isActive c \<and> has_author c) (Comments db)
          in (case matched of
                [] \<Rightarrow> Inl CommentNotFound
              | c # rest \<Rightarrow>
                  Inr (c, sort_key createdAt
                            (filter (\<lambda>r. parentCommentId r = Some (comment_id c) \<and> isActive r
                                          \<and> has_author r) (Comments db))))))"

section \<open>Like and follow handlers\<close>

definition like_matches :: "oid \<Rightarrow> oid \<Rightarrow> LikeableType \<Rightarrow> Like \<Rightarrow> bool" where
  "like_matches u t ty l = (like_userId l = u \<and> like_targetId l = t \<and> like_targetType l = ty)"

text \<open>\<open>POST /api/projects/[id]/like\<close>: toggle the like of a project.\<close>

definition like_project_POST ::
  "string option \<Rightarrow> oid_param \<Rightarrow> Database \<Rightarrow> (error + bool) \<times> Database" where
  "like_project_POST session id_param db =
     (case session of
        None \<Rightarrow> (Inl Unauthorized, db)
      | Some email \<Rightarrow>
     (case id_param of
        Malformed \<Rightarrow> (Inl InvalidId, db)
      | Oid pid canonical \<Rightarrow>
     (case find (\<lambda>u. user_email u = email) (Users db) of
        None \<Rightarrow> (Inl UserNotFound, db)
      | Some user \<Rightarrow>
     (case find (\<lambda>p. project_id p = pid) (Projects db) of
        None \<Rightarrow> (Inl ProjectNotFound, db)
      | Some proj \<Rightarrow>
          (case find (like_matches (user_id user) pid TargetProject) (Likes db) of
             Some existingLike \<Rightarrow>
               (Inr False,
                db\<lparr>Likes := deleteOne (\<lambda>l. like_id l = like_id existingLike) (Likes db)\<rparr>)
           | None \<Rightarrow>
               (Inr True,
                db\<lparr>Likes := Likes db @
                       [\<lparr>like_id = next_oid db, like_userId = user_id user,
                         like_targetId = pid, like_targetType = TargetProject\<rparr>],
                   next_oid := Suc (next_oid db)\<rparr>))))))"

text \<open>
  \<open>POST /api/projects/[id]/comments/[commentId]/like\<close>: toggle the like of a comment and
  move the comment's stored counter; the answer carries the counter read back.
\<close>

definition like_comment_POST ::
  "string option \<Rightarrow> oid_param \<Rightarrow> nat \<Rightarrow> Database \<Rightarrow> (error + bool \<times> int) \<times> Database" where
  "like_comment_POST session commentId now db =
     (case session of
        None \<Rightarrow> (Inl Unauthorized, db)
      | Some email \<Rightarrow>
     (case commentId of
        Malformed \<Rightarrow> (Inl InvalidId, db)
      | Oid cid canonical \<Rightarrow>
     (case find (\<lambda>u. user_email u = email) (Users db) of
        None \<Rightarrow> (Inl UserNotFound, db)
      | Some user \<Rightarrow>
     (case find (\<lambda>c. comment_id c = cid) (Comments db) of
        None \<Rightarrow> (Inl CommentNotFound, db)
      | Some c \<Rightarrow>
          let (liked, db') =
                (case find (like_matches (user_id user) cid TargetComment) (Likes db) of
                   Some existingLike \<Rightarrow>
                     (False,
                      db\<lparr>Likes := deleteOne (\<lambda>l. like_id l = like_id existingLike) (Likes db),
                         Comments := updateOne (\<lambda>c. comment_id c = cid) (inc_likes (- 1) now)
                                       (Comments db)\<rparr>)
                 | None \<Rightarrow>
                     (True,
                      db\<lparr>Likes := Likes db @
                             [\<lparr>like_id = next_oid db, like_userId = user_id user,
                               like_targetId = cid, like_targetType = TargetComment\<rparr>],
                         Comments := updateOne (\<lambda>c. comment_id c = cid) (inc_likes 1 now)
                                       (Comments db),
                         next_oid := Suc (next_oid db)\<rparr>))
          in (case find (\<lambda>c. comment_id c = cid) (Comments db') of
                None \<Rightarrow> (Inl InternalError, db')
              | Some updatedComment \<Rightarrow> (Inr (liked, likes (stats updatedComment)), db'))))))"

text \<open>
  \<open>GET /api/projects/[id]\<close>: the caller's own project; the likes it reports are counted
  from the Like rows at read time. The identifier is not checked before the query, so a
  malformed one fails inside the query.
\<close>

definition project_GET ::
  "string option \<Rightarrow> oid_param \<Rightarrow> Database \<Rightarrow> error + Project \<times> nat" where
  "project_GET session id_param db =
     (case session of
        None \<Rightarrow> Inl Unauthorized
      | Some email \<Rightarrow>
     (case find (\<lambda>u. user_email u = email) (Users db) of
        None \<Rightarrow> Inl UserNotFound
      | Some user \<Rightarrow>
     (case id_param of
        Malformed \<Rightarrow> Inl InternalError
      | Oid pid canonical \<Rightarrow>
     (case find (\<lambda>p. project_id p = pid \<and> project_authorId p = user_id user) (Projects db) of
        None \<Rightarrow> Inl ProjectNotFound
      | Some proj \<Rightarrow>
          let likesCount = countDocuments
                (\<lambda>l. like_targetId l = pid \<and> like_targetType l = TargetProject) (Likes db)
          in Inr (proj, likesCount)))))"

definition canUserFollow :: "oid \<Rightarrow> oid \<Rightarrow> bool" where
  "canUserFollow follower followed = (follower \<noteq> followed)"

definition inc_following :: "int \<Rightarrow> User \<Rightarrow> User" where
  "inc_following k u = u\<lparr>stats_following := stats_following u + k\<rparr>"

definition inc_followers :: "int \<Rightarrow> User \<Rightarrow> User" where
  "inc_followers k u = u\<lparr>stats_followers := stats_followers u + k\<rparr>"

text \<open>
  \<open>POST /api/user/[userId]/follow\<close>: toggle following a user. The guard against following
  oneself compares the printed identifier of the signed-in user with the path string. The
  two counter updates of the source run under \<open>Promise.all\<close>; they increment different
  fields, so their order does not matter and the model applies the actor's first.
\<close>

definition follow_POST ::
  "string option \<Rightarrow> oid_param \<Rightarrow> Database \<Rightarrow> (error + bool \<times> int) \<times> Database" where
  "follow_POST session userId db =
     (case session of
        None \<Rightarrow> (Inl Unauthorized, db)
      | Some email \<Rightarrow>
     (case userId of
        Malformed \<Rightarrow> (Inl InvalidId, db)
      | Oid tid canonical \<Rightarrow>
     (case find (\<lambda>u. user_email u = email) (Users db) of
        None \<Rightarrow> (Inl UserNotFound, db)
      | Some currentUser \<Rightarrow>
     (case find (\<lambda>u. user_id u = tid) (Users db) of
        None \<Rightarrow> (Inl TargetUserNotFound, db)
      | Some targetUser \<Rightarrow>
          if toString_eq (user_id currentUser) userId then (Inl SelfFollow, db)
          else
            let (isFollowing, k, fs, next) =
                  (case find (\<lambda>f. followerId f = user_id currentUser \<and> followingId f = tid)
                          (Follows db) of
                     Some existingFollow \<Rightarrow>
                       (False, - 1,
                        deleteOne (\<lambda>f. follow_id f = follow_id existingFollow) (Follows db),
                        next_oid db)
                   | None \<Rightarrow>
                       (True, 1,
                        Follows db @ [\<lparr>follow_id = next_oid db,
                                       followerId = user_id currentUser, followingId = tid\<rparr>],
                        Suc (next_oid db)));
                us1 = updateOne (\<lambda>u. user_id u = user_id currentUser) (inc_following k) (Users db);
                us2 = updateOne (\<lambda>u. user_id u = tid) (inc_followers k) us1;
                db' = db\<lparr>Users := us2, Follows := fs, next_oid := next\<rparr>
            in (case find (\<lambda>u. user_id u = tid) us2 of
                  None \<Rightarrow> (Inl InternalError, db')
                | Some updatedTargetUser \<Rightarrow>
                    (Inr (isFollowing, stats_followers updatedTargetUser), db'))))))"

section \<open>Observations and scenarios\<close>

text \<open>
  What the claims read off a database: whether a Like row of an actor for a target exists,
  the recomputed count of the Like rows of a target, and the stored counters.
\<close>

definition liked :: "oid \<Rightarrow> oid \<Rightarrow> LikeableType \<Rightarrow> Database \<Rightarrow> bool" where
  "liked u t ty db = (find (like_matches u t ty) (Likes db) \<noteq> None)"

definition count_likes :: "oid \<Rightarrow> LikeableType \<Rightarrow> Database \<Rightarrow> nat" where
  "count_likes t ty db =
     countDocuments (\<lambda>l. like_targetId l = t \<and> like_targetType l = ty) (Likes db)"

definition stored_comment_likes :: "oid \<Rightarrow> Database \<Rightarrow> int option" where
  "stored_comment_likes cid db =
     map_option (\<lambda>c. likes (stats c)) (find (\<lambda>c. comment_id c = cid) (Comments db))"

definition stored_project_likes :: "oid \<Rightarrow> Database \<Rightarrow> int option" where
  "stored_project_likes pid db =
     map_option project_stats_likes (find (\<lambda>p. project_id p = pid) (Projects db))"

definition stored_following :: "oid \<Rightarrow> Database \<Rightarrow> int option" where
  "stored_following u db =
     map_option stats_following (find (\<lambda>x. user_id x = u) (Users db))"

definition stored_followers :: "oid \<Rightarrow> Database \<Rightarrow> int option" where
  "stored_followers u db =
     map_option stats_followers (find (\<lambda>x. user_id x = u) (Users db))"

definition stored_replies :: "oid \<Rightarrow> Database \<Rightarrow> int option" where
  "stored_replies cid db =
     map_option (\<lambda>c. replies (stats c)) (find (\<lambda>c. comment_id c = cid) (Comments db))"

text \<open>
  A sequence of toggle calls of one actor on one target, one after the other: on a comment,
  one call for each time of the list; on a project, \<open>n\<close> calls.
\<close>

fun like_comment_times ::
  "nat list \<Rightarrow> string option \<Rightarrow> oid_param \<Rightarrow> Database \<Rightarrow> Database" where
  "like_comment_times [] session commentId db = db"
| "like_comment_times (now # later) session commentId db =
     like_comment_times later session commentId
       (snd (like_comment_POST session commentId now db))"

fun like_project_times ::
  "nat \<Rightarrow> string option \<Rightarrow> oid_param \<Rightarrow> Database \<Rightarrow> Database" where
  "like_project_times 0 session id_param db = db"
| "like_project_times (Suc n) session id_param db =
     like_project_times n session id_param (snd (like_project_POST session id_param db))"

text \<open>
  A reply chain: \<open>n\<close> reply attempts on the project path \<open>id_param\<close>, each under the
  comment that the attempt before it created (named by the identifier string the answer
  printed), starting under \<open>parent\<close>. The list holds the depth of each created reply, or
  the failure at which the chain stops.
\<close>

fun reply_chain ::
  "nat \<Rightarrow> string option \<Rightarrow> oid_param \<Rightarrow> string \<Rightarrow> nat \<Rightarrow> oid \<Rightarrow> Database
     \<Rightarrow> (error + nat) list" where
  "reply_chain 0 session id_param body now parent db = []"
| "reply_chain (Suc n) session id_param body now parent db =
     (case comments_POST session id_param body (Some (Oid parent True)) now db of
        (Inl e, db') \<Rightarrow> [Inl e]
      | (Inr None, db') \<Rightarrow> []
      | (Inr (Some c), db') \<Rightarrow>
          Inr (depth (metadata c)) # reply_chain n session id_param body now (comment_id c) db')"

text \<open>
  Identifiers handed out by \<open>next_oid\<close> are new when every stored document has a
  smaller one. For the Like rows the identifiers are moreover distinct, and the unique index
  on \<open>(userId, targetId, targetType)\<close> allows at most one row of an actor for a target.
\<close>

definition comment_ids_fresh :: "Database \<Rightarrow> bool" where
  "comment_ids_fresh db = (\<forall>c \<in> set (Comments db). comment_id c < next_oid db)"

definition like_ids_fresh :: "Database \<Rightarrow> bool" where
  "like_ids_fresh db =
     ((\<forall>l \<in> set (Likes db). like_id l < next_oid db) \<and> distinct (map like_id (Likes db)))"

definition at_most_one_like :: "oid \<Rightarrow> oid \<Rightarrow> LikeableType \<Rightarrow> Database \<Rightarrow> bool" where
  "at_most_one_like u t ty db = (length (filter (like_matches u t ty) (Likes db)) \<le> 1)"

text \<open>What a sequence of toggles of one actor on one comment, or on one project, keeps true.\<close>

definition comment_like_inv :: "string \<Rightarrow> User \<Rightarrow> oid \<Rightarrow> Database \<Rightarrow> bool" where
  "comment_like_inv email user cid db =
     (find (\<lambda>u. user_email u = email) (Users db) = Some user
      \<and> find (\<lambda>c. comment_id c = cid) (Comments db) \<noteq> None
      \<and> like_ids_fresh db
      \<and> at_most_one_like (user_id user) cid TargetComment db)"

text \<open>
  The drift of a comment's stored like counter: what it holds beyond the number of the
  comment's Like rows.
\<close>

definition comment_likes_drift :: "oid \<Rightarrow> Database \<Rightarrow> int option" where
  "comment_likes_drift cid db =
     map_option (\<lambda>k. k - int (count_likes cid TargetComment db)) (stored_comment_likes cid db)"

definition project_like_inv :: "string \<Rightarrow> User \<Rightarrow> oid \<Rightarrow> Database \<Rightarrow> bool" where
  "project_like_inv email user pid db =
     (find (\<lambda>u. user_email u = email) (Users db) = Some user
      \<and> find (\<lambda>p. project_id p = pid) (Projects db) \<noteq> None
      \<and> like_ids_fresh db
      \<and> at_most_one_like (user_id user) pid TargetProject db)"

text \<open>
  The scenario databases: two users, one project of the first user, and the thread
  \<open>A \<rightarrow> B \<rightarrow> C \<rightarrow> D\<close> (identifiers 20 to 23) that four calls of the create
  handler leave behind.
\<close>

definition seed_db :: Database where
  "seed_db =
     \<lparr>Users =
        [\<lparr>user_id = 1, user_email = ''u1@example.com'', user_role = RoleUser,
          stats_followers = 0, stats_following = 0\<rparr>,
         \<lparr>user_id = 2, user_email = ''u2@example.com'', user_role = RoleUser,
          stats_followers = 0, stats_following = 0\<rparr>],
      Projects = [\<lparr>project_id = 10, project_authorId = 1, project_stats_likes = 0\<rparr>],
      Comments = [],
      Likes = [],
      Follows = [],
      next_oid = 20\<rparr>"

definition thread_comment :: "oid \<Rightarrow> oid \<Rightarrow> oid option \<Rightarrow> nat \<Rightarrow> int \<Rightarrow> Comment" where
  "thread_comment i author parent d r =
     (newComment i ''Nice work'' author 10 parent d 0)
       \<lparr>stats := \<lparr>likes = 0, replies = r, reportCount = 0\<rparr>\<rparr>"

definition thread_db :: Database where
  "thread_db =
     seed_db
       \<lparr>Comments :=
          [thread_comment 20 1 None 0 1,
           thread_comment 21 2 (Some 20) 1 1,
           thread_comment 22 1 (Some 21) 2 1,
           thread_comment 23 2 (Some 22) 3 0],
        next_oid := 24\<rparr>"

text \<open>
  A tombstoned comment is inactive and carries the marker. Two documents hold the same place
  in the thread when identifier and parent agree; \<open>kept_outside cid\<close> relates a document
  before and after a write that leaves visibility and content alone unless the document is
  comment \<open>cid\<close> or one of its direct replies.
\<close>

definition tombstoned :: "Comment \<Rightarrow> bool" where
  "tombstoned c = (\<not> isActive c \<and> content c = tombstone)"

definition same_thread_slot :: "Comment \<Rightarrow> Comment \<Rightarrow> bool" where
  "same_thread_slot old new =
     (comment_id new = comment_id old \<and> parentCommentId new = parentCommentId old)"

definition kept_outside :: "oid \<Rightarrow> Comment \<Rightarrow> Comment \<Rightarrow> bool" where
  "kept_outside cid old new =
     (same_thread_slot old new
      \<and> (comment_id old \<noteq> cid \<and> parentCommentId old \<noteq> Some cid
           \<longrightarrow> isActive new = isActive old \<and> content new = content old))"

definition same_visible :: "Comment \<Rightarrow> Comment \<Rightarrow> bool" where
  "same_visible old new =
     (same_thread_slot old new \<and> isActive new = isActive old \<and> content new = content old)"

text \<open>
  Further scenario databases: the thread after the author of \<open>D\<close> has deleted it once and
  twice, the thread after the author of \<open>B\<close> has deleted it, and a content of one letter
  followed by 2000 spaces.
\<close>

definition deleted_once :: Database where
  "deleted_once = snd (comment_DELETE (Some ''u2@example.com'') (Oid 23 True) 5 thread_db)"

definition deleted_twice :: Database where
  "deleted_twice = snd (comment_DELETE (Some ''u2@example.com'') (Oid 23 True) 7 deleted_once)"

definition reply_deleted_db :: Database where
  "reply_deleted_db = snd (comment_DELETE (Some ''u2@example.com'') (Oid 21 True) 5 thread_db)"

definition padded_content :: string where
  "padded_content = CHR ''a'' # replicate 2000 CHR '' ''"

section \<open>Facts about the collection primitives\<close>

lemma toString_eq_simps [simp]:
  "toString_eq a Malformed = False"
  "toString_eq a (Oid i canonical) = (canonical \<and> a = i)"
  by (simp_all add: toString_eq_def)

lemma find_Some_mem: "find P xs = Some x \<Longrightarrow> x \<in> set xs \<and> P x"
  by (induction xs) (auto split: if_splits)

lemma find_updateOne_same:
  "(\<And>x. P x \<Longrightarrow> P (f x)) \<Longrightarrow> find P (updateOne P f xs) = map_option f (find P xs)"
  by (induction xs) auto

lemma find_updateOne_other:
  "(\<And>x. Q (f x) = Q x) \<Longrightarrow> (\<And>x. P x \<Longrightarrow> \<not> Q x) \<Longrightarrow> find Q (updateOne P f xs) = find Q xs"
  by (induction xs) auto

lemma find_updateOne_pres:
  "find Q xs = Some y \<Longrightarrow> T y \<Longrightarrow> (\<And>x. Q (f x) = Q x) \<Longrightarrow> (\<And>x. T x \<Longrightarrow> T (f x))
     \<Longrightarrow> \<exists>z. find Q (updateOne P f xs) = Some z \<and> T z"
  by (induction xs) (auto split: if_splits)

lemma find_updateMany_pres:
  "find Q xs = Some y \<Longrightarrow> T y \<Longrightarrow> (\<And>x. Q (f x) = Q x) \<Longrightarrow> (\<And>x. T x \<Longrightarrow> T (f x))
     \<Longrightarrow> \<exists>z. find Q (updateMany P f xs) = Some z \<and> T z"
  by (induction xs) (auto simp: updateMany_def split: if_splits)

lemma list_all2_updateOne:
  "(\<And>x. R x x) \<Longrightarrow> (\<And>x. P x \<Longrightarrow> R x (f x)) \<Longrightarrow> list_all2 R xs (updateOne P f xs)"
  by (induction xs) (auto simp: list_all2_refl)

lemma list_all2_updateMany:
  "(\<And>x. R x x) \<Longrightarrow> (\<And>x. P x \<Longrightarrow> R x (f x)) \<Longrightarrow> list_all2 R xs (updateMany P f xs)"
  by (induction xs) (auto simp: updateMany_def)

lemma softDeleted_simps [simp]:
  "comment_id (softDeleted n c) = comment_id c"
  "parentCommentId (softDeleted n c) = parentCommentId c"
  "tombstoned (softDeleted n c)"
  "updatedAt (softDeleted n c) = n"
  by (simp_all add: softDeleted_def tombstoned_def)

lemma inc_replies_simps [simp]:
  "comment_id (inc_replies k n c) = comment_id c"
  "parentCommentId (inc_replies k n c) = parentCommentId c"
  "isActive (inc_replies k n c) = isActive c"
  "content (inc_replies k n c) = content c"
  "tombstoned (inc_replies k n c) = tombstoned c"
  "updatedAt (inc_replies k n c) = n"
  by (simp_all add: inc_replies_def tombstoned_def)

lemma comment_id_edited [simp]: "comment_id (edited b n c) = comment_id c"
  by (simp add: edited_def)

lemmas scenario_defs =
  thread_db_def seed_db_def thread_comment_def newComment_def trim_def is_space_def

text \<open>The thread of the scenarios is what four calls of the create handler build.\<close>

lemma thread_db_built:
  "snd (comments_POST (Some ''u2@example.com'') (Oid 10 True) ''Nice work'' (Some (Oid 22 True)) 0
     (snd (comments_POST (Some ''u1@example.com'') (Oid 10 True) ''Nice work'' (Some (Oid 21 True)) 0
       (snd (comments_POST (Some ''u2@example.com'') (Oid 10 True) ''Nice work'' (Some (Oid 20 True)) 0
         (snd (comments_POST (Some ''u1@example.com'') (Oid 10 True) ''Nice work'' None 0 seed_db)))))))
   = thread_db"
proof -
  have t: "trim ''Nice work'' = ''Nice work''"
    by (simp add: trim_def is_space_def)
  have 1: "snd (comments_POST (Some ''u1@example.com'') (Oid 10 True) ''Nice work'' None 0 seed_db)
           = seed_db\<lparr>Comments := [thread_comment 20 1 None 0 0], next_oid := 21\<rparr>"
    by (simp add: comments_POST_def reply_depth_def seed_db_def thread_comment_def
          newComment_def Let_def t)
  have 2: "snd (comments_POST (Some ''u2@example.com'') (Oid 10 True) ''Nice work'' (Some (Oid 20 True)) 0
             (seed_db\<lparr>Comments := [thread_comment 20 1 None 0 0], next_oid := 21\<rparr>))
           = seed_db\<lparr>Comments := [thread_comment 20 1 None 0 1,
                                     thread_comment 21 2 (Some 20) 1 0], next_oid := 22\<rparr>"
    by (simp add: comments_POST_def reply_depth_def seed_db_def thread_comment_def
          newComment_def inc_replies_def Let_def t)
  have 3: "snd (comments_POST (Some ''u1@example.com'') (Oid 10 True) ''Nice work'' (Some (Oid 21 True)) 0
             (seed_db\<lparr>Comments := [thread_comment 20 1 None 0 1,
                                     thread_comment 21 2 (Some 20) 1 0], next_oid := 22\<rparr>))
           = seed_db\<lparr>Comments := [thread_comment 20 1 None 0 1,
                                     thread_comment 21 2 (Some 20) 1 1,
                                     thread_comment 22 1 (Some 21) 2 0], next_oid := 23\<rparr>"
    by (simp add: comments_POST_def reply_depth_def seed_db_def thread_comment_def
          newComment_def inc_replies_def Let_def t)
  have 4: "snd (comments_POST (Some ''u2@example.com'') (Oid 10 True) ''Nice work'' (Some (Oid 22 True)) 0
             (seed_db\<lparr>Comments := [thread_comment 20 1 None 0 1,
                                     thread_comment 21 2 (Some 20) 1 1,
                                     thread_comment 22 1 (Some 21) 2 0], next_oid := 23\<rparr>))
           = thread_db"
    by (simp add: comments_POST_def reply_depth_def seed_db_def thread_db_def thread_comment_def
          newComment_def inc_replies_def Let_def t)
  show ?thesis
    by (simp only: 1 2 3 4)
qed

section \<open>Soft deletion\<close>

lemma delete_result:
  assumes "comment_DELETE session (Oid cid sp) now db = (Inr (), db')"
  shows "\<exists>c. find (\<lambda>c. comment_id c = cid) (Comments db) = Some c
             \<and> db' = db\<lparr>Comments := delete_writes cid now c (Comments db)\<rparr>"
  using assms
  by (auto simp: comment_DELETE_def split: option.splits if_splits)

lemma delete_writes_target:
  assumes c: "find (\<lambda>c. comment_id c = cid) cs = Some c"
  shows "\<exists>y. find (\<lambda>c. comment_id c = cid) (delete_writes cid now c' cs) = Some y
              \<and> tombstoned y \<and> updatedAt y = now"
proof -
  let ?T = "\<lambda>y. tombstoned y \<and> updatedAt y = now"
  let ?cs1 = "updateOne (\<lambda>c. comment_id c = cid) (softDeleted now) cs"
  let ?cs2 = "case parentCommentId c' of None \<Rightarrow> ?cs1
                 | Some p \<Rightarrow> updateOne (\<lambda>c. comment_id c = p) (inc_replies (- 1) now) ?cs1"
  have s1: "find (\<lambda>c. comment_id c = cid) ?cs1 = Some (softDeleted now c)"
    by (simp add: find_updateOne_same c)
  have s2: "\<exists>z. find (\<lambda>c. comment_id c = cid) ?cs2 = Some z \<and> ?T z"
  proof (cases "parentCommentId c'")
    case None
    then show ?thesis using s1 by simp
  next
    case (Some p)
    have "\<exists>z. find (\<lambda>c. comment_id c = cid)
                 (updateOne (\<lambda>c. comment_id c = p) (inc_replies (- 1) now) ?cs1) = Some z \<and> ?T z"
      by (rule find_updateOne_pres [where T = ?T, OF s1]) simp_all
    then show ?thesis using Some by simp
  qed
  then obtain z where z: "find (\<lambda>c. comment_id c = cid) ?cs2 = Some z" and tz: "?T z"
    by blast
  have "\<exists>y. find (\<lambda>c. comment_id c = cid)
          (updateMany (\<lambda>c. parentCommentId c = Some cid) (softDeleted now) ?cs2) = Some y \<and> ?T y"
    by (rule find_updateMany_pres [where T = ?T, OF z tz]) simp_all
  then show ?thesis by (simp add: delete_writes_def Let_def)
qed

lemma delete_writes_children:
  "\<forall>c \<in> set (delete_writes cid now c' cs). parentCommentId c = Some cid \<longrightarrow> tombstoned c"
  by (auto simp: delete_writes_def Let_def updateMany_def split: if_splits)

lemma kept_outside_refl: "kept_outside cid x x"
  by (simp add: kept_outside_def same_thread_slot_def)

lemma kept_outside_trans:
  "kept_outside cid a b \<Longrightarrow> kept_outside cid b c \<Longrightarrow> kept_outside cid a c"
  by (auto simp: kept_outside_def same_thread_slot_def)

lemma delete_writes_outside:
  "list_all2 (kept_outside cid) cs (delete_writes cid now c' cs)"
proof -
  let ?R = "kept_outside cid"
  let ?cs1 = "updateOne (\<lambda>c. comment_id c = cid) (softDeleted now) cs"
  let ?cs2 = "case parentCommentId c' of None \<Rightarrow> ?cs1
                 | Some p \<Rightarrow> updateOne (\<lambda>c. comment_id c = p) (inc_replies (- 1) now) ?cs1"
  let ?cs3 = "updateMany (\<lambda>c. parentCommentId c = Some cid) (softDeleted now) ?cs2"
  have r1: "list_all2 ?R cs ?cs1"
    by (rule list_all2_updateOne) (simp_all add: kept_outside_def same_thread_slot_def)
  have r2: "list_all2 ?R ?cs1 ?cs2"
  proof (cases "parentCommentId c'")
    case None
    then show ?thesis by (simp add: list_all2_refl kept_outside_refl)
  next
    case (Some p)
    have "list_all2 ?R ?cs1 (updateOne (\<lambda>c. comment_id c = p) (inc_replies (- 1) now) ?cs1)"
      by (rule list_all2_updateOne) (simp_all add: kept_outside_def same_thread_slot_def)
    then show ?thesis using Some by simp
  qed
  have r3: "list_all2 ?R ?cs2 ?cs3"
    by (rule list_all2_updateMany) (simp_all add: kept_outside_def same_thread_slot_def)
  have r12: "list_all2 ?R cs ?cs2"
    by (rule list_all2_trans [OF _ r1 r2]) (rule kept_outside_trans)
  have "list_all2 ?R cs ?cs3"
    by (rule list_all2_trans [OF _ r12 r3]) (rule kept_outside_trans)
  then show ?thesis by (simp add: delete_writes_def Let_def)
qed

text \<open>
  C1, as the claim states it, fails: on the thread \<open>A \<rightarrow> B \<rightarrow> C \<rightarrow> D\<close>
  (identifiers 20 to 23) the deletion of \<open>A\<close> succeeds and tombstones \<open>A\<close> and its direct
  reply \<open>B\<close>, while the descendants \<open>C\<close> and \<open>D\<close> stay active with their content.
\<close>

theorem cascade_counterexample:
  "fst (comment_DELETE (Some ''u1@example.com'') (Oid 20 True) 5 thread_db) = Inr ()
   \<and> map (\<lambda>c. (comment_id c, parentCommentId c, isActive c, content c = tombstone))
       (Comments (snd (comment_DELETE (Some ''u1@example.com'') (Oid 20 True) 5 thread_db)))
     = [(20, None, False, True), (21, Some 20, False, True),
        (22, Some 21, True, False), (23, Some 22, True, False)]"
  by (simp add: scenario_defs comment_DELETE_def delete_writes_def softDeleted_def
        inc_replies_def updateMany_def tombstone_def)

text \<open>
  C1, amended: a successful soft deletion of comment \<open>cid\<close> leaves the comment itself
  tombstoned (inactive, content replaced by the marker) and every direct reply (every
  document whose \<open>parentCommentId\<close> is \<open>cid\<close>) tombstoned; every other document keeps
  its identifier, parent, visibility and content, so descendants below the direct replies
  are left as they were.
\<close>

theorem soft_delete_direct_children_only:
  assumes "comment_DELETE session (Oid cid sp) now db = (Inr (), db')"
  shows "(\<exists>c. find (\<lambda>c. comment_id c = cid) (Comments db') = Some c \<and> tombstoned c)
         \<and> (\<forall>c \<in> set (Comments db'). parentCommentId c = Some cid \<longrightarrow> tombstoned c)
         \<and> list_all2 (kept_outside cid) (Comments db) (Comments db')"
proof -
  from assms obtain c where c: "find (\<lambda>c. comment_id c = cid) (Comments db) = Some c"
    and db': "db' = db\<lparr>Comments := delete_writes cid now c (Comments db)\<rparr>"
    using delete_result by blast
  show ?thesis
    using delete_writes_target [OF c, of now c] delete_writes_children [of cid now c "Comments db"]
      delete_writes_outside [of cid "Comments db" now c]
    by (auto simp: db')
qed

theorem soft_delete_direct_children_only_witness:
  "comment_DELETE (Some ''u1@example.com'') (Oid 20 True) 5 thread_db
     = (Inr (), snd (comment_DELETE (Some ''u1@example.com'') (Oid 20 True) 5 thread_db))
   \<and> (\<exists>c. find (\<lambda>c. comment_id c = 20)
            (Comments (snd (comment_DELETE (Some ''u1@example.com'') (Oid 20 True) 5 thread_db))) = Some c
          \<and> tombstoned c)
   \<and> list_all2 (kept_outside 20) (Comments thread_db)
       (Comments (snd (comment_DELETE (Some ''u1@example.com'') (Oid 20 True) 5 thread_db)))"
proof -
  have h: "comment_DELETE (Some ''u1@example.com'') (Oid 20 True) 5 thread_db
     = (Inr (), snd (comment_DELETE (Some ''u1@example.com'') (Oid 20 True) 5 thread_db))"
    by (simp add: scenario_defs comment_DELETE_def)
  show ?thesis
    using h soft_delete_direct_children_only [OF h] by blast
qed

section \<open>Editing\<close>

text \<open>
  C10: a comment that was soft-deleted (inactive, carrying the marker) can still be edited
  by its author. The edit handler looks at existence, authorship and the content only; the
  edit replaces the marker by the new trimmed content, sets \<open>isEdited\<close> and the time, and
  the comment stays inactive.
\<close>

theorem edit_deleted_comment:
  assumes user: "find (\<lambda>u. user_email u = email) (Users db) = Some user"
      and comment: "find (\<lambda>c. comment_id c = cid) (Comments db) = Some c"
      and author: "authorId c = user_id user"
      and deleted: "\<not> isActive c" "content c = tombstone"
      and valid: "trim new_content \<noteq> []" "length new_content \<le> 2000"
  shows "\<exists>c' db'. comment_PUT (Some email) (Oid cid sp) new_content now db = (Inr c', db')
           \<and> find (\<lambda>c. comment_id c = cid) (Comments db') = Some c'
           \<and> content c' = trim new_content
           \<and> isEdited (metadata c')
           \<and> \<not> isActive c'
           \<and> updatedAt c' = now"
proof -
  have ne: "new_content \<noteq> []"
    using valid(1) by (auto simp: trim_def)
  have upd: "find (\<lambda>c. comment_id c = cid)
               (updateOne (\<lambda>c. comment_id c = cid) (edited new_content now) (Comments db))
             = Some (edited new_content now c)"
    by (simp add: find_updateOne_same comment)
  show ?thesis
    using user comment author deleted valid ne upd
    by (simp add: comment_PUT_def Let_def edited_def)
qed

theorem edit_deleted_comment_witness:
  "\<exists>c' db'. comment_PUT (Some ''u2@example.com'') (Oid 23 True) ''I am back'' 9
               (snd (comment_DELETE (Some ''u2@example.com'') (Oid 23 True) 5 thread_db)) = (Inr c', db')
     \<and> content c' = ''I am back'' \<and> isEdited (metadata c') \<and> \<not> isActive c'"
proof -
  let ?db = "snd (comment_DELETE (Some ''u2@example.com'') (Oid 23 True) 5 thread_db)"
  have u: "find (\<lambda>u. user_email u = ''u2@example.com'') (Users ?db)
             = Some \<lparr>user_id = 2, user_email = ''u2@example.com'', user_role = RoleUser,
                     stats_followers = 0, stats_following = 0\<rparr>"
    by (simp add: scenario_defs comment_DELETE_def)
  have c: "find (\<lambda>c. comment_id c = 23) (Comments ?db)
             = Some (softDeleted 5 (thread_comment 23 2 (Some 22) 3 0))"
    by (simp add: scenario_defs comment_DELETE_def delete_writes_def softDeleted_def
          inc_replies_def updateMany_def)
  have t: "trim ''I am back'' = ''I am back''"
    by (simp add: trim_def is_space_def)
  have "\<exists>c' db'. comment_PUT (Some ''u2@example.com'') (Oid 23 True) ''I am back'' 9 ?db = (Inr c', db')
           \<and> find (\<lambda>c. comment_id c = 23) (Comments db') = Some c'
           \<and> content c' = ''I am back''
           \<and> isEdited (metadata c')
           \<and> \<not> isActive c'
           \<and> updatedAt c' = 9"
    using edit_deleted_comment [OF u c, where new_content = "''I am back''" and now = 9
            and sp = True]
    by (simp add: softDeleted_def thread_comment_def newComment_def t)
  then show ?thesis
    by blast
qed

section \<open>Following oneself\<close>

text \<open>
  For the canonical spelling of the actor's own identifier the guard of the follow handler
  works: the call is refused with \<open>SelfFollow\<close> (the specification's
  \<open>InvalidTarget\<close>) before the Follow collection is read, and the database comes back as
  it went in.
\<close>

lemma self_follow_refused_canonical:
  assumes actor: "find (\<lambda>u. user_email u = email) (Users db) = Some a"
  shows "follow_POST (Some email) (Oid (user_id a) True) db = (Inl SelfFollow, db)"
proof -
  have "a \<in> set (Users db)"
    using actor by (simp add: find_Some_mem)
  then have "find (\<lambda>u. user_id u = user_id a) (Users db) \<noteq> None"
    by (auto simp: find_None_iff)
  then obtain t where t: "find (\<lambda>u. user_id u = user_id a) (Users db) = Some t"
    by auto
  show ?thesis
    using actor t by (simp add: follow_POST_def)
qed

text \<open>
  C9 at a failing input: user 1 toggles follow on a path that spells the user's own
  identifier in another way than \<open>toString()\<close> prints it (upper-case hexadecimal digits).
  The string passes \<open>isValid\<close> and \<open>findById\<close> finds user 1, the comparison of strings
  does not see the same user, and the handler answers success: it saves a Follow row from
  user 1 to user 1 and increments the user's own \<open>following\<close> and \<open>followers\<close>. The
  model's helper \<open>canUserFollow\<close>, which compares identifiers, refuses the pair. With the
  canonical spelling the same call is refused.
\<close>

theorem self_follow_noncanonical:
  "follow_POST (Some ''u1@example.com'') (Oid 1 True) seed_db = (Inl SelfFollow, seed_db)
   \<and> fst (follow_POST (Some ''u1@example.com'') (Oid 1 False) seed_db) = Inr (True, 1)
   \<and> Follows (snd (follow_POST (Some ''u1@example.com'') (Oid 1 False) seed_db))
       = [\<lparr>follow_id = 20, followerId = 1, followingId = 1\<rparr>]
   \<and> stored_following 1 (snd (follow_POST (Some ''u1@example.com'') (Oid 1 False) seed_db)) = Some 1
   \<and> stored_followers 1 (snd (follow_POST (Some ''u1@example.com'') (Oid 1 False) seed_db)) = Some 1
   \<and> \<not> canUserFollow 1 1"
  by (simp add: seed_db_def follow_POST_def inc_following_def inc_followers_def
        stored_following_def stored_followers_def canUserFollow_def)

section \<open>Repeated soft deletion\<close>

lemma updateOne_find_None: "find P xs = None \<Longrightarrow> updateOne P f xs = xs"
  by (induction xs) (auto split: if_splits)

lemma list_all2_updateOne_first:
  "find P xs = Some y \<Longrightarrow> R y (f y) \<Longrightarrow> (\<And>x. R x x) \<Longrightarrow> list_all2 R xs (updateOne P f xs)"
  by (induction xs) (auto simp: list_all2_refl split: if_splits)

lemma list_all2_updateMany_set:
  "(\<And>x. R x x) \<Longrightarrow> (\<And>x. x \<in> set xs \<Longrightarrow> P x \<Longrightarrow> R x (f x))
     \<Longrightarrow> list_all2 R xs (updateMany P f xs)"
  by (induction xs) (auto simp: updateMany_def)

lemma list_all2_set_back:
  "list_all2 R xs ys \<Longrightarrow> y \<in> set ys \<Longrightarrow> \<exists>x \<in> set xs. R x y"
  by (induction rule: list_all2_induct) auto

lemma same_visible_refl: "same_visible x x"
  by (simp add: same_visible_def same_thread_slot_def)

lemma same_visible_trans: "same_visible a b \<Longrightarrow> same_visible b c \<Longrightarrow> same_visible a c"
  by (simp add: same_visible_def same_thread_slot_def)

lemma same_visible_softDeleted: "tombstoned x \<Longrightarrow> same_visible x (softDeleted n x)"
  by (simp add: same_visible_def same_thread_slot_def tombstoned_def softDeleted_def)

lemma same_visible_inc_replies: "same_visible x (inc_replies k n x)"
  by (simp add: same_visible_def same_thread_slot_def)

lemma same_visible_map:
  "list_all2 same_visible xs ys
     \<Longrightarrow> map (\<lambda>c. (comment_id c, isActive c, content c)) ys
         = map (\<lambda>c. (comment_id c, isActive c, content c)) xs"
  by (induction rule: list_all2_induct) (auto simp: same_visible_def same_thread_slot_def)

lemma delete_writes_again:
  assumes y: "find (\<lambda>c. comment_id c = cid) cs = Some y" and ty: "tombstoned y"
      and kids: "\<forall>c \<in> set cs. parentCommentId c = Some cid \<longrightarrow> tombstoned c"
  shows "list_all2 same_visible cs (delete_writes cid now c' cs)"
proof -
  let ?cs1 = "updateOne (\<lambda>c. comment_id c = cid) (softDeleted now) cs"
  let ?cs2 = "case parentCommentId c' of None \<Rightarrow> ?cs1
                 | Some p \<Rightarrow> updateOne (\<lambda>c. comment_id c = p) (inc_replies (- 1) now) ?cs1"
  let ?cs3 = "updateMany (\<lambda>c. parentCommentId c = Some cid) (softDeleted now) ?cs2"
  have r1: "list_all2 same_visible cs ?cs1"
    by (rule list_all2_updateOne_first [OF y])
       (simp_all add: same_visible_softDeleted ty same_visible_refl)
  have r2: "list_all2 same_visible ?cs1 ?cs2"
  proof (cases "parentCommentId c'")
    case None
    then show ?thesis by (simp add: list_all2_refl same_visible_refl)
  next
    case (Some p)
    have "list_all2 same_visible ?cs1 (updateOne (\<lambda>c. comment_id c = p) (inc_replies (- 1) now) ?cs1)"
      by (rule list_all2_updateOne) (simp_all add: same_visible_refl same_visible_inc_replies)
    then show ?thesis using Some by simp
  qed
  have r12: "list_all2 same_visible cs ?cs2"
    by (rule list_all2_trans [OF _ r1 r2]) (rule same_visible_trans)
  have kids2: "tombstoned x" if "x \<in> set ?cs2" "parentCommentId x = Some cid" for x
  proof -
    from list_all2_set_back [OF r12 that(1)] obtain a where a: "a \<in> set cs" "same_visible a x"
      by blast
    then have "parentCommentId a = Some cid"
      using that(2) by (simp add: same_visible_def same_thread_slot_def)
    then have "tombstoned a" using kids a(1) by blast
    then show ?thesis using a(2) by (simp add: same_visible_def tombstoned_def)
  qed
  have r3: "list_all2 same_visible ?cs2 ?cs3"
    by (rule list_all2_updateMany_set) (simp_all add: same_visible_refl same_visible_softDeleted kids2)
  have "list_all2 same_visible cs ?cs3"
    by (rule list_all2_trans [OF _ r12 r3]) (rule same_visible_trans)
  then show ?thesis by (simp add: delete_writes_def Let_def)
qed

lemma softDeleted_authorId [simp]: "authorId (softDeleted n c) = authorId c"
  by (simp add: softDeleted_def)

lemma inc_replies_authorId [simp]: "authorId (inc_replies k n c) = authorId c"
  by (simp add: inc_replies_def)

lemma delete_writes_author:
  assumes c: "find (\<lambda>c. comment_id c = cid) cs = Some c"
  shows "\<exists>y. find (\<lambda>c. comment_id c = cid) (delete_writes cid now c' cs) = Some y
              \<and> authorId y = authorId c"
proof -
  let ?T = "\<lambda>y. authorId y = authorId c"
  let ?cs1 = "updateOne (\<lambda>c. comment_id c = cid) (softDeleted now) cs"
  let ?cs2 = "case parentCommentId c' of None \<Rightarrow> ?cs1
                 | Some p \<Rightarrow> updateOne (\<lambda>c. comment_id c = p) (inc_replies (- 1) now) ?cs1"
  have s1: "find (\<lambda>c. comment_id c = cid) ?cs1 = Some (softDeleted now c)"
    by (simp add: find_updateOne_same c)
  have s2: "\<exists>z. find (\<lambda>c. comment_id c = cid) ?cs2 = Some z \<and> ?T z"
  proof (cases "parentCommentId c'")
    case None
    then show ?thesis using s1 by simp
  next
    case (Some p)
    have "\<exists>z. find (\<lambda>c. comment_id c = cid)
                 (updateOne (\<lambda>c. comment_id c = p) (inc_replies (- 1) now) ?cs1) = Some z \<and> ?T z"
      by (rule find_updateOne_pres [where T = ?T, OF s1]) simp_all
    then show ?thesis using Some by simp
  qed
  then obtain z where z: "find (\<lambda>c. comment_id c = cid) ?cs2 = Some z" and tz: "?T z"
    by blast
  have "\<exists>y. find (\<lambda>c. comment_id c = cid)
          (updateMany (\<lambda>c. parentCommentId c = Some cid) (softDeleted now) ?cs2) = Some y \<and> ?T y"
    by (rule find_updateMany_pres [where T = ?T, OF z tz]) simp_all
  then show ?thesis by (simp add: delete_writes_def Let_def)
qed

lemma delete_accepts:
  "comment_DELETE session (Oid cid sp) now db = (Inr (), db') \<Longrightarrow>
   \<exists>email user c. session = Some email
      \<and> find (\<lambda>u. user_email u = email) (Users db) = Some user
      \<and> find (\<lambda>c. comment_id c = cid) (Comments db) = Some c
      \<and> (authorId c = user_id user \<or> user_role user = RoleAdmin)
      \<and> db' = db\<lparr>Comments := delete_writes cid now c (Comments db)\<rparr>"
  by (auto simp: comment_DELETE_def split: option.splits if_splits)

text \<open>
  C7, amended: a repeated soft deletion is not skipped. The delete handler never reads
  \<open>isActive\<close>, so after a successful call the same call succeeds again and writes the
  tombstone again with the time of the second call. What the repetition leaves alone is the
  visibility and the content: every comment has the same \<open>isActive\<close> and the same
  content after the second call as after the first.
\<close>

theorem repeated_soft_delete:
  assumes first: "comment_DELETE session (Oid cid sp) now1 db = (Inr (), db1)"
  shows "\<exists>db2. comment_DELETE session (Oid cid sp) now2 db1 = (Inr (), db2)
           \<and> map (\<lambda>c. (comment_id c, isActive c, content c)) (Comments db2)
               = map (\<lambda>c. (comment_id c, isActive c, content c)) (Comments db1)
           \<and> (\<exists>c. find (\<lambda>c. comment_id c = cid) (Comments db2) = Some c \<and> updatedAt c = now2)"
proof -
  from delete_accepts [OF first] obtain email user c where
    s: "session = Some email"
    and u: "find (\<lambda>u. user_email u = email) (Users db) = Some user"
    and c: "find (\<lambda>c. comment_id c = cid) (Comments db) = Some c"
    and a: "authorId c = user_id user \<or> user_role user = RoleAdmin"
    and db1: "db1 = db\<lparr>Comments := delete_writes cid now1 c (Comments db)\<rparr>"
    by blast
  let ?cs1 = "delete_writes cid now1 c (Comments db)"
  from delete_writes_author [OF c, of now1 c] obtain y where
    y: "find (\<lambda>c. comment_id c = cid) ?cs1 = Some y" and ay: "authorId y = authorId c"
    by blast
  from delete_writes_target [OF c, of now1 c] y have ty: "tombstoned y"
    by simp
  have kids: "\<forall>x \<in> set ?cs1. parentCommentId x = Some cid \<longrightarrow> tombstoned x"
    by (rule delete_writes_children)
  let ?db2 = "db1\<lparr>Comments := delete_writes cid now2 y ?cs1\<rparr>"
  have second: "comment_DELETE session (Oid cid sp) now2 db1 = (Inr (), ?db2)"
    using s u y a ay by (auto simp: comment_DELETE_def db1)
  have "list_all2 same_visible ?cs1 (delete_writes cid now2 y ?cs1)"
    by (rule delete_writes_again [OF y ty kids])
  then have m: "map (\<lambda>c. (comment_id c, isActive c, content c)) (Comments ?db2)
               = map (\<lambda>c. (comment_id c, isActive c, content c)) (Comments db1)"
    by (simp add: same_visible_map db1)
  from delete_writes_target [OF y, of now2 y]
  have t: "\<exists>c. find (\<lambda>c. comment_id c = cid) (Comments ?db2) = Some c \<and> updatedAt c = now2"
    by auto
  show ?thesis
    using second m t by blast
qed

lemmas delete_defs =
  comment_DELETE_def delete_writes_def softDeleted_def inc_replies_def updateMany_def

text \<open>
  C7, as the claim states it, fails: deleting reply \<open>D\<close> (23) of the thread a second time
  succeeds, moves the reply counter of its parent \<open>C\<close> (22) from 0 to -1, and moves
  \<open>updatedAt\<close> of \<open>D\<close> from 5 to 7, so the database after the second call differs
  from the one after the first.
\<close>

theorem repeated_soft_delete_counterexample:
  "fst (comment_DELETE (Some ''u2@example.com'') (Oid 23 True) 7 deleted_once) = Inr ()
   \<and> stored_replies 22 thread_db = Some 1
   \<and> stored_replies 22 deleted_once = Some 0
   \<and> stored_replies 22 deleted_twice = Some (- 1)
   \<and> map_option updatedAt (find (\<lambda>c. comment_id c = 23) (Comments deleted_once)) = Some 5
   \<and> map_option updatedAt (find (\<lambda>c. comment_id c = 23) (Comments deleted_twice)) = Some 7
   \<and> deleted_twice \<noteq> deleted_once"
proof -
  have once: "Comments deleted_once =
     [thread_comment 20 1 None 0 1,
      thread_comment 21 2 (Some 20) 1 1,
      (thread_comment 22 1 (Some 21) 2 0)\<lparr>updatedAt := 5\<rparr>,
      softDeleted 5 (thread_comment 23 2 (Some 22) 3 0)]"
    by (simp add: deleted_once_def scenario_defs delete_defs)
  have users: "Users deleted_once = Users seed_db"
    by (simp add: deleted_once_def scenario_defs delete_defs)
  have twice: "Comments deleted_twice =
     [thread_comment 20 1 None 0 1,
      thread_comment 21 2 (Some 20) 1 1,
      (thread_comment 22 1 (Some 21) 2 (- 1))\<lparr>updatedAt := 7\<rparr>,
      softDeleted 7 (thread_comment 23 2 (Some 22) 3 0)]"
    by (simp add: deleted_twice_def once users scenario_defs delete_defs)
  have ok: "fst (comment_DELETE (Some ''u2@example.com'') (Oid 23 True) 7 deleted_once) = Inr ()"
    by (simp add: once users scenario_defs delete_defs)
  have ne: "deleted_twice \<noteq> deleted_once"
  proof
    assume "deleted_twice = deleted_once"
    then have "Comments deleted_twice = Comments deleted_once" by simp
    then show False
      by (simp add: once twice thread_comment_def newComment_def)
  qed
  show ?thesis
    using ok ne
    by (simp add: stored_replies_def once twice thread_db_def thread_comment_def newComment_def
          softDeleted_def)
qed

theorem repeated_soft_delete_witness:
  "comment_DELETE (Some ''u2@example.com'') (Oid 23 True) 5 thread_db = (Inr (), deleted_once)
   \<and> (\<exists>db2. comment_DELETE (Some ''u2@example.com'') (Oid 23 True) 7 deleted_once = (Inr (), db2)
           \<and> map (\<lambda>c. (comment_id c, isActive c, content c)) (Comments db2)
               = map (\<lambda>c. (comment_id c, isActive c, content c)) (Comments deleted_once)
           \<and> (\<exists>c. find (\<lambda>c. comment_id c = 23) (Comments db2) = Some c \<and> updatedAt c = 7))"
proof -
  have h: "comment_DELETE (Some ''u2@example.com'') (Oid 23 True) 5 thread_db = (Inr (), deleted_once)"
    by (simp add: deleted_once_def scenario_defs comment_DELETE_def)
  show ?thesis
    using h repeated_soft_delete [OF h, of 7] by blast
qed

section \<open>Reading reply counts, replying under a deleted comment, content length\<close>

lemma reply_deleted_db_eq:
  "reply_deleted_db =
     thread_db\<lparr>Comments :=
       [(thread_comment 20 1 None 0 0)\<lparr>updatedAt := 5\<rparr>,
        softDeleted 5 (thread_comment 21 2 (Some 20) 1 1),
        softDeleted 5 (thread_comment 22 1 (Some 21) 2 1),
        thread_comment 23 2 (Some 22) 3 0]\<rparr>"
  by (simp add: reply_deleted_db_def scenario_defs delete_defs)

text \<open>
  C4 at a failing input: the thread after reply \<open>B\<close> (21) of the top-level comment
  \<open>A\<close> (20) was deleted. \<open>A\<close> has no active direct reply, its stored counter is 0 and
  the single-comment read returns no reply, yet the listing reports one reply for \<open>A\<close>:
  the \<open>$lookup\<close> of the listing counts the children whatever their \<open>isActive\<close>.
\<close>

theorem listing_counts_deleted_reply:
  "comments_GET (Some ''u1@example.com'') (Oid 10 True) 1 20 SortCreatedAt Desc reply_deleted_db
     = Inr ([\<lparr>item_id = 20, item_content = ''Nice work'', item_createdAt = 0,
              item_updatedAt = 5, item_likes = 0, item_replies = 1, item_author = 1\<rparr>], 1)
   \<and> countDocuments (\<lambda>r. parentCommentId r = Some 20 \<and> isActive r) (Comments reply_deleted_db) = 0
   \<and> stored_replies 20 reply_deleted_db = Some 0
   \<and> map_sum id (\<lambda>cr. map comment_id (snd cr)) (comment_GET (Some ''u1@example.com'') (Oid 20 True) reply_deleted_db)
       = Inr []"
  by (simp add: reply_deleted_db_eq scenario_defs comments_GET_def comment_GET_def list_item_def
        sort_value_def countDocuments_def stored_replies_def softDeleted_def Let_def)

text \<open>
  C8 at a failing input: in the same database comment \<open>B\<close> (21) is tombstoned and the
  model's helper \<open>canReplyToComment\<close> refuses it, yet the create handler accepts a reply
  under it and stores the reply (24) active, under an inactive parent.
\<close>

theorem reply_under_deleted_parent:
  "map_option (\<lambda>c. (isActive c, tombstoned c))
       (find (\<lambda>c. comment_id c = 21) (Comments reply_deleted_db)) = Some (False, True)
   \<and> map_option canReplyToComment
       (find (\<lambda>c. comment_id c = 21) (Comments reply_deleted_db)) = Some False
   \<and> map_sum id (map_option (\<lambda>c. (comment_id c, parentCommentId c, isActive c, content c)))
       (fst (comments_POST (Some ''u1@example.com'') (Oid 10 True) ''Hello'' (Some (Oid 21 True)) 9 reply_deleted_db))
       = Inr (Some (24, Some 21, True, ''Hello''))
   \<and> map (\<lambda>c. (comment_id c, parentCommentId c, isActive c))
       (Comments (snd (comments_POST (Some ''u1@example.com'') (Oid 10 True) ''Hello'' (Some (Oid 21 True)) 9
                        reply_deleted_db)))
       = [(20, None, True), (21, Some 20, False), (22, Some 21, False), (23, Some 22, True),
          (24, Some 21, True)]"
  by (simp add: reply_deleted_db_eq scenario_defs comments_POST_def reply_depth_def
        canReplyToComment_def MAX_THREAD_DEPTH_def tombstoned_def tombstone_def
        softDeleted_def inc_replies_def Let_def)

lemma trim_padded: "trim padded_content = ''a''"
proof -
  have "dropWhile is_space (replicate 2000 CHR '' '' @ ''a'') = dropWhile is_space ''a''"
    by (rule dropWhile_append2) (simp add: is_space_def)
  then show ?thesis
    by (simp add: trim_def padded_content_def is_space_def)
qed

text \<open>
  C6 at a failing input: a content of one letter and 2000 spaces has length 1 after trimming
  and passes \<open>validateCommentContent\<close>, yet the create and the edit handler refuse it as
  too long, because they compare the length before trimming with 2000.
\<close>

theorem padded_content_rejected:
  "length (trim padded_content) = 1
   \<and> validateCommentContent padded_content
   \<and> comments_POST (Some ''u1@example.com'') (Oid 10 True) padded_content None 0 seed_db
       = (Inl ContentTooLong, seed_db)
   \<and> comment_PUT (Some ''u1@example.com'') (Oid 20 True) padded_content 0 thread_db
       = (Inl ContentTooLong, thread_db)"
proof -
  have l: "length padded_content = 2001" and ne: "padded_content \<noteq> []"
    by (simp_all add: padded_content_def)
  show ?thesis
    using l ne
    by (simp add: trim_padded validateCommentContent_def MIN_COMMENT_LENGTH_def
          MAX_COMMENT_LENGTH_def comments_POST_def comment_PUT_def thread_db_def seed_db_def
          thread_comment_def newComment_def)
qed

text \<open>What the two content checks of the create handler accept.\<close>

lemma content_checks:
  "(\<exists>e. fst (comments_POST (Some email) (Oid pid sp) body None now db) = Inl e
        \<and> e \<in> {ContentRequired, ContentTooLong})
   \<longleftrightarrow> find (\<lambda>u. user_email u = email) (Users db) \<noteq> None
       \<and> find (\<lambda>p. project_id p = pid) (Projects db) \<noteq> None
       \<and> (trim body = [] \<or> length body > 2000)"
  by (auto simp: comments_POST_def reply_depth_def Let_def trim_def split: option.splits)

section \<open>Follow counters\<close>

lemma user_id_inc [simp]:
  "user_id (inc_following k u) = user_id u"
  "user_id (inc_followers k u) = user_id u"
  "stats_following (inc_following k u) = stats_following u + k"
  "stats_followers (inc_following k u) = stats_followers u"
  "stats_followers (inc_followers k u) = stats_followers u + k"
  "stats_following (inc_followers k u) = stats_following u"
  by (simp_all add: inc_following_def inc_followers_def)

lemma follow_counter_writes:
  assumes a: "find (\<lambda>u. user_id u = aid) us = Some a"
      and t: "find (\<lambda>u. user_id u = tid) us = Some t"
      and ne: "aid \<noteq> tid"
  shows "find (\<lambda>u. user_id u = aid)
           (updateOne (\<lambda>u. user_id u = tid) (inc_followers k)
              (updateOne (\<lambda>u. user_id u = aid) (inc_following k) us)) = Some (inc_following k a)"
    and "find (\<lambda>u. user_id u = tid)
           (updateOne (\<lambda>u. user_id u = tid) (inc_followers k)
              (updateOne (\<lambda>u. user_id u = aid) (inc_following k) us)) = Some (inc_followers k t)"
proof -
  let ?us1 = "updateOne (\<lambda>u. user_id u = aid) (inc_following k) us"
  have a1: "find (\<lambda>u. user_id u = aid) ?us1 = Some (inc_following k a)"
    by (simp add: find_updateOne_same a)
  have "find (\<lambda>u. user_id u = tid) ?us1 = find (\<lambda>u. user_id u = tid) us"
    by (rule find_updateOne_other) (use ne in auto)
  then have t1: "find (\<lambda>u. user_id u = tid) ?us1 = Some t"
    by (simp add: t)
  have "find (\<lambda>u. user_id u = aid) (updateOne (\<lambda>u. user_id u = tid) (inc_followers k) ?us1)
          = find (\<lambda>u. user_id u = aid) ?us1"
    by (rule find_updateOne_other) (use ne in auto)
  then show "find (\<lambda>u. user_id u = aid) (updateOne (\<lambda>u. user_id u = tid) (inc_followers k) ?us1)
          = Some (inc_following k a)"
    by (simp add: a1)
  show "find (\<lambda>u. user_id u = tid) (updateOne (\<lambda>u. user_id u = tid) (inc_followers k) ?us1)
          = Some (inc_followers k t)"
    by (simp add: find_updateOne_same t1)
qed

text \<open>
  C3: a toggle-follow of an actor on another existing user succeeds, and it moves the two
  counters together: when it follows (no Follow row before), the actor's
  \<open>stats.following\<close> and the target's \<open>stats.followers\<close> both grow by one; when it
  unfollows, both shrink by one. The answer carries the target's new follower count.
\<close>

theorem follow_counters_move_together:
  assumes actor: "find (\<lambda>u. user_email u = email) (Users db) = Some a"
      and target: "find (\<lambda>u. user_id u = tid) (Users db) = Some t"
      and other: "user_id a \<noteq> tid"
  shows "\<exists>isFollowing n db' following0.
           follow_POST (Some email) (Oid tid sp) db = (Inr (isFollowing, n), db')
           \<and> isFollowing = (find (\<lambda>f. followerId f = user_id a \<and> followingId f = tid)
                               (Follows db) = None)
           \<and> stored_following (user_id a) db = Some following0
           \<and> stored_followers tid db = Some (stats_followers t)
           \<and> stored_following (user_id a) db'
               = Some (following0 + (if isFollowing then 1 else - 1))
           \<and> stored_followers tid db'
               = Some (stats_followers t + (if isFollowing then 1 else - 1))
           \<and> n = stats_followers t + (if isFollowing then 1 else - 1)"
proof -
  have "a \<in> set (Users db)"
    using actor by (simp add: find_Some_mem)
  then have "find (\<lambda>u. user_id u = user_id a) (Users db) \<noteq> None"
    by (auto simp: find_None_iff)
  then obtain a' where a': "find (\<lambda>u. user_id u = user_id a) (Users db) = Some a'"
    by auto
  note w = follow_counter_writes [OF a' target other]
  show ?thesis
  proof (cases "find (\<lambda>f. followerId f = user_id a \<and> followingId f = tid) (Follows db)")
    case None
    then show ?thesis
      using actor target other a' w [of 1]
      by (auto simp: follow_POST_def stored_following_def stored_followers_def)
  next
    case (Some existingFollow)
    then show ?thesis
      using actor target other a' w [of "- 1"]
      by (auto simp: follow_POST_def stored_following_def stored_followers_def)
  qed
qed

theorem follow_counters_move_together_witness:
  "\<exists>db1 db2.
     follow_POST (Some ''u1@example.com'') (Oid 2 True) seed_db = (Inr (True, 1), db1)
     \<and> stored_following 1 db1 = Some 1 \<and> stored_followers 2 db1 = Some 1
     \<and> follow_POST (Some ''u1@example.com'') (Oid 2 True) db1 = (Inr (False, 0), db2)
     \<and> stored_following 1 db2 = Some 0 \<and> stored_followers 2 db2 = Some 0"
proof -
  let ?u1 = "\<lparr>user_id = 1, user_email = ''u1@example.com'', user_role = RoleUser,
               stats_followers = 0, stats_following = 0\<rparr>"
  let ?u2 = "\<lparr>user_id = 2, user_email = ''u2@example.com'', user_role = RoleUser,
               stats_followers = 0, stats_following = 0\<rparr>"
  have a: "find (\<lambda>u. user_email u = ''u1@example.com'') (Users seed_db) = Some ?u1"
    and t: "find (\<lambda>u. user_id u = 2) (Users seed_db) = Some ?u2"
    by (simp_all add: seed_db_def)
  from follow_counters_move_together [OF a t, where sp = True]
  obtain db1 where
    1: "follow_POST (Some ''u1@example.com'') (Oid 2 True) seed_db = (Inr (True, 1), db1)"
       "stored_following 1 db1 = Some 1" "stored_followers 2 db1 = Some 1"
    by (auto simp: seed_db_def stored_following_def)
  have db1: "db1 = snd (follow_POST (Some ''u1@example.com'') (Oid 2 True) seed_db)"
    using 1(1) by simp
  have 2: "follow_POST (Some ''u1@example.com'') (Oid 2 True) db1 = (Inr (False, 0), snd (follow_POST (Some ''u1@example.com'') (Oid 2 True) db1))"
    "stored_following 1 (snd (follow_POST (Some ''u1@example.com'') (Oid 2 True) db1)) = Some 0"
    "stored_followers 2 (snd (follow_POST (Some ''u1@example.com'') (Oid 2 True) db1)) = Some 0"
    by (simp_all add: db1 seed_db_def follow_POST_def inc_following_def inc_followers_def
          stored_following_def stored_followers_def)
  show ?thesis
    using 1 2 by blast
qed

section \<open>Reply depth\<close>

lemma updateOne_all:
  "\<forall>x \<in> set xs. T x \<Longrightarrow> (\<And>x. T x \<Longrightarrow> T (f x)) \<Longrightarrow> \<forall>x \<in> set (updateOne P f xs). T x"
  by (induction xs) auto

lemma find_fresh_append:
  "\<forall>c \<in> set cs. comment_id c < n \<Longrightarrow> comment_id c' = n
     \<Longrightarrow> find (\<lambda>x. comment_id x = n) (cs @ [c']) = Some c'"
  by (induction cs) auto

lemma reply_step_ok:
  assumes fresh: "comment_ids_fresh db"
      and user: "find (\<lambda>u. user_email u = email) (Users db) = Some user"
      and proj: "find (\<lambda>p. project_id p = pid) (Projects db) = Some pr"
      and parent: "find (\<lambda>c. comment_id c = p) (Comments db) = Some pc"
      and same: "projectId pc = pid"
      and valid: "trim body \<noteq> []" "length body \<le> 2000"
      and room: "depth (metadata pc) < MAX_THREAD_DEPTH"
  shows "\<exists>c db'. comments_POST (Some email) (Oid pid True) body (Some (Oid p sp)) now db
                    = (Inr (Some c), db')
           \<and> depth (metadata c) = depth (metadata pc) + 1
           \<and> projectId c = pid
           \<and> find (\<lambda>x. comment_id x = comment_id c) (Comments db') = Some c
           \<and> comment_ids_fresh db'
           \<and> Users db' = Users db \<and> Projects db' = Projects db"
proof -
  let ?c = "newComment (next_oid db) body (user_id user) pid (Some p) (depth (metadata pc) + 1) now"
  let ?cs2 = "updateOne (\<lambda>c. comment_id c = p) (inc_replies 1 now) (Comments db @ [?c])"
  have ne: "body \<noteq> []"
    using valid(1) by (auto simp: trim_def)
  have old: "\<forall>c \<in> set (Comments db). comment_id c < next_oid db"
    using fresh by (simp add: comment_ids_fresh_def)
  have "pc \<in> set (Comments db) \<and> comment_id pc = p"
    using parent by (rule find_Some_mem)
  then have p_lt: "p < next_oid db"
    using old by auto
  have rd: "reply_depth (Some (Oid p sp)) (Oid pid True) db = Inr (depth (metadata pc) + 1)"
    using parent same room by (simp add: reply_depth_def Let_def MAX_THREAD_DEPTH_def)
  have f1: "find (\<lambda>x. comment_id x = next_oid db) (Comments db @ [?c]) = Some ?c"
    by (rule find_fresh_append [OF old]) (simp add: newComment_def)
  have "find (\<lambda>x. comment_id x = next_oid db) ?cs2
          = find (\<lambda>x. comment_id x = next_oid db) (Comments db @ [?c])"
    by (rule find_updateOne_other) (use p_lt in auto)
  then have f2: "find (\<lambda>x. comment_id x = next_oid db) ?cs2 = Some ?c"
    using f1 by simp
  have "\<forall>c \<in> set (Comments db @ [?c]). comment_id c < Suc (next_oid db)"
    using old by (auto simp: newComment_def less_Suc_eq)
  then have fresh': "\<forall>c \<in> set ?cs2. comment_id c < Suc (next_oid db)"
    by (rule updateOne_all) simp
  have res: "comments_POST (Some email) (Oid pid True) body (Some (Oid p sp)) now db
          = (Inr (Some ?c), db\<lparr>Comments := ?cs2, next_oid := Suc (next_oid db)\<rparr>)"
    using user proj valid ne rd f2 by (simp add: comments_POST_def Let_def)
  show ?thesis
    using res f2 fresh'
    by (simp add: comment_ids_fresh_def newComment_def)
qed

lemma reply_step_too_deep:
  assumes user: "find (\<lambda>u. user_email u = email) (Users db) = Some user"
      and proj: "find (\<lambda>p. project_id p = pid) (Projects db) = Some pr"
      and parent: "find (\<lambda>c. comment_id c = p) (Comments db) = Some pc"
      and same: "projectId pc = pid"
      and valid: "trim body \<noteq> []" "length body \<le> 2000"
      and full: "\<not> depth (metadata pc) < MAX_THREAD_DEPTH"
  shows "comments_POST (Some email) (Oid pid True) body (Some (Oid p sp)) now db = (Inl DepthExceeded, db)"
proof -
  have ne: "body \<noteq> []"
    using valid(1) by (auto simp: trim_def)
  have rd: "reply_depth (Some (Oid p sp)) (Oid pid True) db = Inl DepthExceeded"
    using parent same full by (simp add: reply_depth_def Let_def MAX_THREAD_DEPTH_def)
  show ?thesis
    using user proj valid ne rd by (simp add: comments_POST_def)
qed

lemma reply_chain_depths:
  assumes "comment_ids_fresh db"
      and "find (\<lambda>u. user_email u = email) (Users db) = Some user"
      and "find (\<lambda>p. project_id p = pid) (Projects db) = Some pr"
      and "find (\<lambda>c. comment_id c = p) (Comments db) = Some pc"
      and "projectId pc = pid"
      and "trim body \<noteq> []" "length body \<le> 2000"
      and "depth (metadata pc) = d" "d \<le> MAX_THREAD_DEPTH"
  shows "reply_chain n (Some email) (Oid pid True) body now p db
           = map Inr [Suc d ..< Suc (min (d + n) MAX_THREAD_DEPTH)]
             @ (if MAX_THREAD_DEPTH < d + n then [Inl DepthExceeded] else [])"
  using assms
proof (induction n arbitrary: db p pc d)
  case 0
  then show ?case by simp
next
  case (Suc n)
  show ?case
  proof (cases "d < MAX_THREAD_DEPTH")
    case True
    then have room: "depth (metadata pc) < MAX_THREAD_DEPTH"
      using Suc.prems by simp
    from reply_step_ok [OF Suc.prems(1-7) room, where now = now and sp = True]
    obtain c db' where
      post: "comments_POST (Some email) (Oid pid True) body (Some (Oid p True)) now db = (Inr (Some c), db')"
      and dc: "depth (metadata c) = Suc d"
      and pc': "projectId c = pid"
      and fc: "find (\<lambda>x. comment_id x = comment_id c) (Comments db') = Some c"
      and fr: "comment_ids_fresh db'"
      and us: "Users db' = Users db" and ps: "Projects db' = Projects db"
      using Suc.prems(8) by auto
    have u': "find (\<lambda>u. user_email u = email) (Users db') = Some user"
      and p': "find (\<lambda>p. project_id p = pid) (Projects db') = Some pr"
      using Suc.prems us ps by simp_all
    have le: "Suc d \<le> MAX_THREAD_DEPTH" using True by simp
    have ih: "reply_chain n (Some email) (Oid pid True) body now (comment_id c) db'
           = map Inr [Suc (Suc d) ..< Suc (min (Suc d + n) MAX_THREAD_DEPTH)]
             @ (if MAX_THREAD_DEPTH < Suc d + n then [Inl DepthExceeded] else [])"
      by (rule Suc.IH [OF fr u' p' fc pc' Suc.prems(6,7) dc le])
    have lt: "Suc d < Suc (min (d + Suc n) MAX_THREAD_DEPTH)"
      using True by simp
    have upt: "[Suc d ..< Suc (min (d + Suc n) MAX_THREAD_DEPTH)]
                 = Suc d # [Suc (Suc d) ..< Suc (min (d + Suc n) MAX_THREAD_DEPTH)]"
      by (rule upt_conv_Cons [OF lt])
    have "reply_chain (Suc n) (Some email) (Oid pid True) body now p db
            = Inr (Suc d) # reply_chain n (Some email) (Oid pid True) body now (comment_id c) db'"
      using post dc by simp
    also have "\<dots> = Inr (Suc d) # (map Inr [Suc (Suc d) ..< Suc (min (d + Suc n) MAX_THREAD_DEPTH)]
             @ (if MAX_THREAD_DEPTH < d + Suc n then [Inl DepthExceeded] else []))"
      by (simp add: ih)
    also have "\<dots> = map Inr [Suc d ..< Suc (min (d + Suc n) MAX_THREAD_DEPTH)]
             @ (if MAX_THREAD_DEPTH < d + Suc n then [Inl DepthExceeded] else [])"
      by (simp only: upt list.map append_Cons)
    finally show ?thesis .
  next
    case False
    then have full: "\<not> depth (metadata pc) < MAX_THREAD_DEPTH" and d5: "d = MAX_THREAD_DEPTH"
      using Suc.prems by simp_all
    have "comments_POST (Some email) (Oid pid True) body (Some (Oid p True)) now db = (Inl DepthExceeded, db)"
      by (rule reply_step_too_deep [OF Suc.prems(2-7) full, where sp = True])
    then show ?thesis
      using d5 by simp
  qed
qed

text \<open>
  The project check of the create handler compares the printed project identifier of the
  parent with the path string. On a path that spells the project identifier in another way
  every reply is refused as belonging to another project, whatever its depth.
\<close>

lemma reply_noncanonical_project:
  assumes user: "find (\<lambda>u. user_email u = email) (Users db) = Some user"
      and proj: "find (\<lambda>p. project_id p = pid) (Projects db) = Some pr"
      and parent: "find (\<lambda>c. comment_id c = p) (Comments db) = Some pc"
      and valid: "trim body \<noteq> []" "length body \<le> 2000"
  shows "comments_POST (Some email) (Oid pid False) body (Some (Oid p sp)) now db
           = (Inl ParentWrongProject, db)"
proof -
  have ne: "body \<noteq> []"
    using valid(1) by (auto simp: trim_def)
  have rd: "reply_depth (Some (Oid p sp)) (Oid pid False) db = Inl ParentWrongProject"
    using parent by (simp add: reply_depth_def)
  show ?thesis
    using user proj valid ne rd by (simp add: comments_POST_def)
qed

lemma thread_db_root:
  "comment_ids_fresh thread_db"
  "find (\<lambda>u. user_email u = ''u1@example.com'') (Users thread_db)
     = Some \<lparr>user_id = 1, user_email = ''u1@example.com'', user_role = RoleUser,
             stats_followers = 0, stats_following = 0\<rparr>"
  "find (\<lambda>p. project_id p = 10) (Projects thread_db)
     = Some \<lparr>project_id = 10, project_authorId = 1, project_stats_likes = 0\<rparr>"
  "find (\<lambda>c. comment_id c = 20) (Comments thread_db) = Some (thread_comment 20 1 None 0 1)"
  "projectId (thread_comment 20 1 None 0 1) = 10"
  "trim ''Nice work'' \<noteq> []"
  "length ''Nice work'' \<le> 2000"
  "depth (metadata (thread_comment 20 1 None 0 1)) = 0"
  "(0::nat) \<le> MAX_THREAD_DEPTH"
  by (simp_all add: comment_ids_fresh_def scenario_defs)

text \<open>
  C5, amended: on a request that spells the project identifier canonically, under a parent
  of depth \<open>d\<close> a chain of \<open>n\<close> reply attempts creates the depths
  \<open>d + 1, d + 2, \<dots>\<close>, each the depth of its parent plus one, up to
  \<open>MAX_THREAD_DEPTH = 5\<close>, and the first attempt that would go beyond is refused with
  \<open>DepthExceeded\<close>. From a root comment the first \<open>MAX_THREAD_DEPTH\<close> attempts succeed
  and the chain fails exactly at attempt \<open>MAX_THREAD_DEPTH + 1\<close>.
\<close>

theorem reply_depth_bound:
  assumes "comment_ids_fresh db"
      and "find (\<lambda>u. user_email u = email) (Users db) = Some user"
      and "find (\<lambda>p. project_id p = pid) (Projects db) = Some pr"
      and "find (\<lambda>c. comment_id c = p) (Comments db) = Some pc"
      and "projectId pc = pid"
      and "trim body \<noteq> []" "length body \<le> 2000"
      and "depth (metadata pc) = d" "d \<le> MAX_THREAD_DEPTH"
  shows "reply_chain n (Some email) (Oid pid True) body now p db
           = map Inr [Suc d ..< Suc (min (d + n) MAX_THREAD_DEPTH)]
             @ (if MAX_THREAD_DEPTH < d + n then [Inl DepthExceeded] else [])"
  using assms by (rule reply_chain_depths)

text \<open>
  C5, as the claim states it, fails in its last clause: from the root \<open>A\<close> (20) the fifth
  reply attempt (attempt \<open>MAX_DEPTH\<close>) succeeds with depth 5; it is the sixth attempt
  that is refused.
\<close>

theorem fifth_reply_counterexample:
  "reply_chain 5 (Some ''u1@example.com'') (Oid 10 True) ''Nice work'' 0 20 thread_db
     = [Inr 1, Inr 2, Inr 3, Inr 4, Inr 5]
   \<and> reply_chain 6 (Some ''u1@example.com'') (Oid 10 True) ''Nice work'' 0 20 thread_db
     = [Inr 1, Inr 2, Inr 3, Inr 4, Inr 5, Inl DepthExceeded]"
  using reply_chain_depths [OF thread_db_root, where n = 5 and now = 0]
    reply_chain_depths [OF thread_db_root, where n = 6 and now = 0]
  by (simp add: MAX_THREAD_DEPTH_def upt_conv_Cons)

theorem reply_depth_bound_witness:
  "comment_ids_fresh thread_db
   \<and> reply_chain 6 (Some ''u1@example.com'') (Oid 10 True) ''Nice work'' 0 20 thread_db
       = [Inr 1, Inr 2, Inr 3, Inr 4, Inr 5, Inl DepthExceeded]"
proof -
  have e: "map Inr [Suc 0 ..< Suc (min (0 + 6) MAX_THREAD_DEPTH)]
       @ (if MAX_THREAD_DEPTH < 0 + 6 then [Inl DepthExceeded] else [])
     = [Inr 1, Inr 2, Inr 3, Inr 4, Inr 5, Inl DepthExceeded :: error + nat]"
    by (simp add: MAX_THREAD_DEPTH_def upt_conv_Cons)
  show ?thesis
    using reply_depth_bound [OF thread_db_root, where n = 6 and now = 0] e thread_db_root(1)
    by simp
qed

section \<open>Like toggles\<close>

lemma deleteOne_by_key:
  "distinct (map k xs) \<Longrightarrow> x \<in> set xs \<Longrightarrow> deleteOne (\<lambda>y. k y = k x) xs = remove1 x xs"
  by (induction xs) (auto simp: rev_image_eqI)

lemma in_set_remove1D: "y \<in> set (remove1 x xs) \<Longrightarrow> y \<in> set xs"
  by (induction xs) (auto split: if_splits)

lemma distinct_map_remove1: "distinct (map k xs) \<Longrightarrow> distinct (map k (remove1 x xs))"
  by (induction xs) (auto dest: in_set_remove1D)

lemma length_filter_remove1:
  "x \<in> set xs \<Longrightarrow> Q x \<Longrightarrow> Suc (length (filter Q (remove1 x xs))) = length (filter Q xs)"
  by (induction xs) auto

lemma find_None_filter: "(find P xs = None) = (filter P xs = [])"
  by (induction xs) auto

text \<open>The two ways a toggle rewrites the Like collection.\<close>

lemma unlike_rows:
  assumes fresh: "\<forall>l \<in> set ls. like_id l < n" "distinct (map like_id ls)"
      and one: "length (filter (like_matches u t ty) ls) \<le> 1"
      and found: "find (like_matches u t ty) ls = Some l"
  shows "\<forall>x \<in> set (deleteOne (\<lambda>x. like_id x = like_id l) ls). like_id x < n"
    and "distinct (map like_id (deleteOne (\<lambda>x. like_id x = like_id l) ls))"
    and "find (like_matches u t ty) (deleteOne (\<lambda>x. like_id x = like_id l) ls) = None"
    and "Suc (length (filter (\<lambda>x. like_targetId x = t \<and> like_targetType x = ty)
                (deleteOne (\<lambda>x. like_id x = like_id l) ls)))
           = length (filter (\<lambda>x. like_targetId x = t \<and> like_targetType x = ty) ls)"
proof -
  have mem: "l \<in> set ls" and m: "like_matches u t ty l"
    using found find_Some_mem [of "like_matches u t ty" ls l] by simp_all
  have del: "deleteOne (\<lambda>x. like_id x = like_id l) ls = remove1 l ls"
    by (rule deleteOne_by_key [OF fresh(2) mem])
  show "\<forall>x \<in> set (deleteOne (\<lambda>x. like_id x = like_id l) ls). like_id x < n"
    using fresh(1) by (auto simp: del dest: in_set_remove1D)
  show "distinct (map like_id (deleteOne (\<lambda>x. like_id x = like_id l) ls))"
    by (simp add: del distinct_map_remove1 fresh(2))
  have "Suc (length (filter (like_matches u t ty) (remove1 l ls)))
          = length (filter (like_matches u t ty) ls)"
    using mem m by (rule length_filter_remove1)
  then have "length (filter (like_matches u t ty) (remove1 l ls)) = 0"
    using one by linarith
  then have "filter (like_matches u t ty) (remove1 l ls) = []"
    by (simp only: length_0_conv)
  then show "find (like_matches u t ty) (deleteOne (\<lambda>x. like_id x = like_id l) ls) = None"
    by (simp add: del find_None_filter)
  show "Suc (length (filter (\<lambda>x. like_targetId x = t \<and> like_targetType x = ty)
                (deleteOne (\<lambda>x. like_id x = like_id l) ls)))
           = length (filter (\<lambda>x. like_targetId x = t \<and> like_targetType x = ty) ls)"
    unfolding del
    using mem by (rule length_filter_remove1) (use m in \<open>simp add: like_matches_def\<close>)
qed

lemma like_rows:
  assumes fresh: "\<forall>l \<in> set ls. like_id l < n" "distinct (map like_id ls)"
      and none: "find (like_matches u t ty) ls = None"
  shows "\<forall>x \<in> set (ls @ [\<lparr>like_id = n, like_userId = u, like_targetId = t,
                               like_targetType = ty\<rparr>]). like_id x < Suc n"
    and "distinct (map like_id (ls @ [\<lparr>like_id = n, like_userId = u, like_targetId = t,
                               like_targetType = ty\<rparr>]))"
    and "find (like_matches u t ty) (ls @ [\<lparr>like_id = n, like_userId = u, like_targetId = t,
                               like_targetType = ty\<rparr>]) \<noteq> None"
    and "length (filter (like_matches u t ty) (ls @ [\<lparr>like_id = n, like_userId = u,
                               like_targetId = t, like_targetType = ty\<rparr>])) \<le> 1"
    and "length (filter (\<lambda>x. like_targetId x = t \<and> like_targetType x = ty)
           (ls @ [\<lparr>like_id = n, like_userId = u, like_targetId = t, like_targetType = ty\<rparr>]))
           = Suc (length (filter (\<lambda>x. like_targetId x = t \<and> like_targetType x = ty) ls))"
proof -
  have e: "filter (like_matches u t ty) ls = []"
    using none by (simp add: find_None_filter)
  show "\<forall>x \<in> set (ls @ [\<lparr>like_id = n, like_userId = u, like_targetId = t,
                               like_targetType = ty\<rparr>]). like_id x < Suc n"
    using fresh(1) by (auto simp: less_Suc_eq)
  show "distinct (map like_id (ls @ [\<lparr>like_id = n, like_userId = u, like_targetId = t,
                               like_targetType = ty\<rparr>]))"
    using fresh by auto
  show "find (like_matches u t ty) (ls @ [\<lparr>like_id = n, like_userId = u, like_targetId = t,
                               like_targetType = ty\<rparr>]) \<noteq> None"
    by (simp add: find_None_filter like_matches_def)
  show "length (filter (like_matches u t ty) (ls @ [\<lparr>like_id = n, like_userId = u,
                               like_targetId = t, like_targetType = ty\<rparr>])) \<le> 1"
    by (simp add: e)
  show "length (filter (\<lambda>x. like_targetId x = t \<and> like_targetType x = ty)
           (ls @ [\<lparr>like_id = n, like_userId = u, like_targetId = t, like_targetType = ty\<rparr>]))
           = Suc (length (filter (\<lambda>x. like_targetId x = t \<and> like_targetType x = ty) ls))"
    by simp
qed

lemma likes_inc_likes [simp]:
  "comment_id (inc_likes k n c) = comment_id c"
  "likes (stats (inc_likes k n c)) = likes (stats c) + k"
  by (simp_all add: inc_likes_def)

lemma like_comment_step:
  assumes inv: "comment_like_inv email user cid db"
  shows "comment_like_inv email user cid
           (snd (like_comment_POST (Some email) (Oid cid sp) now db))
    \<and> liked (user_id user) cid TargetComment
           (snd (like_comment_POST (Some email) (Oid cid sp) now db))
         = (\<not> liked (user_id user) cid TargetComment db)
    \<and> comment_likes_drift cid (snd (like_comment_POST (Some email) (Oid cid sp) now db))
         = comment_likes_drift cid db"
proof -
  let ?m = "like_matches (user_id user) cid TargetComment"
  let ?q = "\<lambda>x. like_targetId x = cid \<and> like_targetType x = TargetComment"
  from inv have user: "find (\<lambda>u. user_email u = email) (Users db) = Some user"
    and fresh: "\<forall>l \<in> set (Likes db). like_id l < next_oid db" "distinct (map like_id (Likes db))"
    and one: "length (filter ?m (Likes db)) \<le> 1"
    by (simp_all add: comment_like_inv_def like_ids_fresh_def at_most_one_like_def)
  from inv obtain c where c: "find (\<lambda>c. comment_id c = cid) (Comments db) = Some c"
    by (auto simp: comment_like_inv_def)
  have upd: "find (\<lambda>c. comment_id c = cid)
               (updateOne (\<lambda>c. comment_id c = cid) (inc_likes k now) (Comments db))
             = Some (inc_likes k now c)" for k
    by (simp add: find_updateOne_same c)
  show ?thesis
  proof (cases "find ?m (Likes db)")
    case None
    note r = like_rows [OF fresh None]
    have db': "snd (like_comment_POST (Some email) (Oid cid sp) now db)
            = db\<lparr>Likes := Likes db @ [\<lparr>like_id = next_oid db, like_userId = user_id user,
                               like_targetId = cid, like_targetType = TargetComment\<rparr>],
                 Comments := updateOne (\<lambda>c. comment_id c = cid) (inc_likes 1 now) (Comments db),
                 next_oid := Suc (next_oid db)\<rparr>"
      using user c None upd [of 1] by (simp add: like_comment_POST_def)
    show ?thesis
      unfolding db'
      using user c r upd [of 1] None
      by (simp add: comment_like_inv_def like_ids_fresh_def at_most_one_like_def
            comment_likes_drift_def stored_comment_likes_def count_likes_def countDocuments_def
            liked_def)
  next
    case (Some l)
    note r = unlike_rows [OF fresh one Some]
    have db': "snd (like_comment_POST (Some email) (Oid cid sp) now db)
            = db\<lparr>Likes := deleteOne (\<lambda>x. like_id x = like_id l) (Likes db),
                 Comments := updateOne (\<lambda>c. comment_id c = cid) (inc_likes (- 1) now)
                               (Comments db)\<rparr>"
      using user c Some upd [of "- 1"] by (simp add: like_comment_POST_def)
    have e: "filter ?m (deleteOne (\<lambda>x. like_id x = like_id l) (Likes db)) = []"
      using r(3) by (simp add: find_None_filter)
    have cnt: "int (length (filter ?q (deleteOne (\<lambda>x. like_id x = like_id l) (Likes db))))
                 = int (length (filter ?q (Likes db))) - 1"
      using r(4) by linarith
    show ?thesis
      unfolding db'
      using user c r(1,2,3) e upd [of "- 1"] Some cnt
      by (simp add: comment_like_inv_def like_ids_fresh_def at_most_one_like_def
            comment_likes_drift_def stored_comment_likes_def count_likes_def countDocuments_def
            liked_def)
  qed
qed

lemma like_comment_times_inv:
  "comment_like_inv email user cid db \<Longrightarrow>
   comment_like_inv email user cid (like_comment_times ts (Some email) (Oid cid sp) db)
   \<and> liked (user_id user) cid TargetComment (like_comment_times ts (Some email) (Oid cid sp) db)
       = (liked (user_id user) cid TargetComment db \<noteq> odd (length ts))
   \<and> comment_likes_drift cid (like_comment_times ts (Some email) (Oid cid sp) db)
       = comment_likes_drift cid db"
proof (induction ts arbitrary: db)
  case Nil
  then show ?case by simp
next
  case (Cons t ts)
  let ?db1 = "snd (like_comment_POST (Some email) (Oid cid sp) t db)"
  from like_comment_step [OF Cons.prems, of sp t]
  have i: "comment_like_inv email user cid ?db1"
    and f: "liked (user_id user) cid TargetComment ?db1
           = (\<not> liked (user_id user) cid TargetComment db)"
    and d: "comment_likes_drift cid ?db1 = comment_likes_drift cid db"
    by simp_all
  from Cons.IH [OF i] f d show ?case
    by auto
qed

lemma like_project_step:
  assumes inv: "project_like_inv email user pid db"
  shows "project_like_inv email user pid (snd (like_project_POST (Some email) (Oid pid sp) db))
    \<and> liked (user_id user) pid TargetProject (snd (like_project_POST (Some email) (Oid pid sp) db))
         = (\<not> liked (user_id user) pid TargetProject db)
    \<and> Projects (snd (like_project_POST (Some email) (Oid pid sp) db)) = Projects db
    \<and> int (count_likes pid TargetProject (snd (like_project_POST (Some email) (Oid pid sp) db)))
         = int (count_likes pid TargetProject db)
           + (if liked (user_id user) pid TargetProject db then - 1 else 1)"
proof -
  let ?m = "like_matches (user_id user) pid TargetProject"
  let ?q = "\<lambda>x. like_targetId x = pid \<and> like_targetType x = TargetProject"
  from inv have user: "find (\<lambda>u. user_email u = email) (Users db) = Some user"
    and fresh: "\<forall>l \<in> set (Likes db). like_id l < next_oid db" "distinct (map like_id (Likes db))"
    and one: "length (filter ?m (Likes db)) \<le> 1"
    by (simp_all add: project_like_inv_def like_ids_fresh_def at_most_one_like_def)
  from inv obtain p where p: "find (\<lambda>p. project_id p = pid) (Projects db) = Some p"
    by (auto simp: project_like_inv_def)
  show ?thesis
  proof (cases "find ?m (Likes db)")
    case None
    note r = like_rows [OF fresh None]
    have db': "snd (like_project_POST (Some email) (Oid pid sp) db)
            = db\<lparr>Likes := Likes db @ [\<lparr>like_id = next_oid db, like_userId = user_id user,
                               like_targetId = pid, like_targetType = TargetProject\<rparr>],
                 next_oid := Suc (next_oid db)\<rparr>"
      using user p None by (simp add: like_project_POST_def)
    show ?thesis
      unfolding db'
      using user p r None
      by (simp add: project_like_inv_def like_ids_fresh_def at_most_one_like_def
            count_likes_def countDocuments_def liked_def)
  next
    case (Some l)
    note r = unlike_rows [OF fresh one Some]
    have db': "snd (like_project_POST (Some email) (Oid pid sp) db)
            = db\<lparr>Likes := deleteOne (\<lambda>x. like_id x = like_id l) (Likes db)\<rparr>"
      using user p Some by (simp add: like_project_POST_def)
    have e: "filter ?m (deleteOne (\<lambda>x. like_id x = like_id l) (Likes db)) = []"
      using r(3) by (simp add: find_None_filter)
    have cnt: "int (length (filter ?q (deleteOne (\<lambda>x. like_id x = like_id l) (Likes db))))
                 = int (length (filter ?q (Likes db))) - 1"
      using r(4) by linarith
    show ?thesis
      unfolding db'
      using user p r(1,2,3) e Some cnt
      by (simp add: project_like_inv_def like_ids_fresh_def at_most_one_like_def
            count_likes_def countDocuments_def liked_def)
  qed
qed

lemma like_project_times_inv:
  "project_like_inv email user pid db \<Longrightarrow>
   project_like_inv email user pid (like_project_times n (Some email) (Oid pid sp) db)
   \<and> liked (user_id user) pid TargetProject (like_project_times n (Some email) (Oid pid sp) db)
       = (liked (user_id user) pid TargetProject db \<noteq> odd n)
   \<and> Projects (like_project_times n (Some email) (Oid pid sp) db) = Projects db
   \<and> int (count_likes pid TargetProject (like_project_times n (Some email) (Oid pid sp) db))
       - (if liked (user_id user) pid TargetProject
               (like_project_times n (Some email) (Oid pid sp) db) then 1 else 0)
     = int (count_likes pid TargetProject db)
       - (if liked (user_id user) pid TargetProject db then 1 else 0)"
proof (induction n arbitrary: db)
  case 0
  then show ?case by simp
next
  case (Suc n)
  let ?db1 = "snd (like_project_POST (Some email) (Oid pid sp) db)"
  from like_project_step [OF Suc.prems]
  have i: "project_like_inv email user pid ?db1"
    and f: "liked (user_id user) pid TargetProject ?db1
           = (\<not> liked (user_id user) pid TargetProject db)"
    and p: "Projects ?db1 = Projects db"
    and c: "int (count_likes pid TargetProject ?db1)
         = int (count_likes pid TargetProject db)
           + (if liked (user_id user) pid TargetProject db then - 1 else 1)"
    by simp_all
  from Suc.IH [OF i] f p c show ?case
    by (auto split: if_splits)
qed

lemma not_liked_at_most_one: "\<not> liked u t ty db \<Longrightarrow> at_most_one_like u t ty db"
  by (simp add: liked_def at_most_one_like_def find_None_filter)

lemma project_GET_count:
  "project_GET session (Oid pid sp) db = Inr (p, k) \<Longrightarrow> k = count_likes pid TargetProject db"
  by (auto simp: project_GET_def count_likes_def Let_def split: option.splits)

text \<open>
  What the toggles do keep. From a state where the actor has no Like row for the target, the
  actor likes the target after a sequence of toggles exactly when the number of calls is
  odd, for a comment and for a project. On a comment every toggle moves the stored counter
  with the Like rows, so a counter that agreed with the number of rows agrees again. On a
  project the number of rows follows the toggles and the project read reports it.
\<close>

lemma like_toggle_parity:
  assumes user: "find (\<lambda>u. user_email u = email) (Users db) = Some user"
      and ids: "like_ids_fresh db"
  shows "(\<not> liked (user_id user) cid TargetComment db
          \<and> find (\<lambda>c. comment_id c = cid) (Comments db) \<noteq> None
          \<longrightarrow> liked (user_id user) cid TargetComment
                  (like_comment_times ts (Some email) (Oid cid sp) db) = odd (length ts)
              \<and> comment_likes_drift cid (like_comment_times ts (Some email) (Oid cid sp) db)
                  = comment_likes_drift cid db)
       \<and> (\<not> liked (user_id user) pid TargetProject db
          \<and> find (\<lambda>p. project_id p = pid) (Projects db) \<noteq> None
          \<longrightarrow> liked (user_id user) pid TargetProject
                  (like_project_times n (Some email) (Oid pid sp) db) = odd n
              \<and> count_likes pid TargetProject (like_project_times n (Some email) (Oid pid sp) db)
                  = count_likes pid TargetProject db + (if odd n then 1 else 0))"
proof (intro conjI impI)
  assume a: "\<not> liked (user_id user) cid TargetComment db
          \<and> find (\<lambda>c. comment_id c = cid) (Comments db) \<noteq> None"
  then have "comment_like_inv email user cid db"
    using user ids by (simp add: comment_like_inv_def not_liked_at_most_one)
  from like_comment_times_inv [OF this, of ts sp] a
  show "liked (user_id user) cid TargetComment
          (like_comment_times ts (Some email) (Oid cid sp) db) = odd (length ts)"
    and "comment_likes_drift cid (like_comment_times ts (Some email) (Oid cid sp) db)
          = comment_likes_drift cid db"
    by simp_all
next
  assume a: "\<not> liked (user_id user) pid TargetProject db
          \<and> find (\<lambda>p. project_id p = pid) (Projects db) \<noteq> None"
  then have "project_like_inv email user pid db"
    using user ids by (simp add: project_like_inv_def not_liked_at_most_one)
  note t = like_project_times_inv [OF this, of n sp]
  show "liked (user_id user) pid TargetProject
          (like_project_times n (Some email) (Oid pid sp) db) = odd n"
    using t a by simp
  show "count_likes pid TargetProject (like_project_times n (Some email) (Oid pid sp) db)
          = count_likes pid TargetProject db + (if odd n then 1 else 0)"
    using t a by (auto split: if_splits)
qed

lemma comment_counter_agrees:
  assumes "find (\<lambda>u. user_email u = email) (Users db) = Some user"
      and "like_ids_fresh db"
      and "\<not> liked (user_id user) cid TargetComment db"
      and "stored_comment_likes cid db = Some (int (count_likes cid TargetComment db))"
  shows "stored_comment_likes cid (like_comment_times ts (Some email) (Oid cid sp) db)
           = Some (int (count_likes cid TargetComment
                          (like_comment_times ts (Some email) (Oid cid sp) db)))"
proof -
  have ex: "find (\<lambda>c. comment_id c = cid) (Comments db) \<noteq> None"
    using assms(4) by (auto simp: stored_comment_likes_def)
  have "comment_likes_drift cid (like_comment_times ts (Some email) (Oid cid sp) db)
          = comment_likes_drift cid db"
    using like_toggle_parity [OF assms(1,2), of cid ts sp] assms(3) ex by simp
  also have "\<dots> = Some 0"
    using assms(4) by (simp add: comment_likes_drift_def)
  finally show ?thesis
    by (auto simp: comment_likes_drift_def)
qed

text \<open>
  C2 at a failing input: user 2 toggles the like of project 10 once, from the state without
  any Like row. The actor then likes the project, one Like row exists for it and the
  project read reports one like, but the stored \<open>stats.likes\<close> of the project is still 0:
  the project route never writes the counter. The sibling route for comments does: after
  one toggle of user 2 on comment 20 the stored counter of the comment is 1, as the count
  of its Like rows.
\<close>

theorem project_like_leaves_counter:
  "liked 2 10 TargetProject (like_project_times 1 (Some ''u2@example.com'') (Oid 10 True) seed_db)
   \<and> count_likes 10 TargetProject (like_project_times 1 (Some ''u2@example.com'') (Oid 10 True) seed_db) = 1
   \<and> stored_project_likes 10 (like_project_times 1 (Some ''u2@example.com'') (Oid 10 True) seed_db) = Some 0
   \<and> map_sum id snd
       (project_GET (Some ''u1@example.com'') (Oid 10 True)
          (like_project_times 1 (Some ''u2@example.com'') (Oid 10 True) seed_db)) = Inr 1
   \<and> liked 2 20 TargetComment (like_comment_times [1] (Some ''u2@example.com'') (Oid 20 True) thread_db)
   \<and> count_likes 20 TargetComment
       (like_comment_times [1] (Some ''u2@example.com'') (Oid 20 True) thread_db) = 1
   \<and> stored_comment_likes 20
       (like_comment_times [1] (Some ''u2@example.com'') (Oid 20 True) thread_db) = Some 1"
  by (simp add: scenario_defs like_project_POST_def like_comment_POST_def like_matches_def
        liked_def stored_project_likes_def stored_comment_likes_def count_likes_def
        countDocuments_def project_GET_def inc_likes_def)

end
